theory Spec2Isabelle
  imports Main "HOL-Library.Word"
begin

unbundle bit_operations_syntax

section \<open>Machine types and error codes\<close>

text \<open>
  The firmware targets 32-bit microcontrollers: \<open>size_t\<close> and \<open>uint32_t\<close> are both
  32 bits wide. Offsets and sizes are natural numbers below \<open>2 ^ 32\<close>, and every C
  addition or subtraction on them is written with its wrap-around (\<open>mod 2 ^ 32\<close>).
  The 16-bit frame fields are \<open>16 word\<close>, the magic number is a \<open>32 word\<close>, bytes are
  \<open>8 word\<close>.
\<close>

type_synonym byte = "8 word"

definition U32 :: nat where
  "U32 = 2 ^ 32"

text \<open>
  The negative errno values the code returns. \<open>EOVERRUN\<close> is not a C return value: it
  marks the place where the C code copies more bytes into a buffer than the buffer holds
  (undefined behaviour), so that the model does not invent a result there.
\<close>

datatype errno = EINVAL | ENOTSUP | ENOENT | EILSEQ | E2BIG | EOVERRUN

text \<open>An \<open>int\<close> argument converted to \<open>uint32_t\<close> at a call of the access layer.\<close>

definition u32_of_int :: "int \<Rightarrow> nat" where
  "u32_of_int i = nat (i mod 2 ^ 32)"

section \<open>Little-endian scalars\<close>

definition le16 :: "byte list \<Rightarrow> 16 word" where
  "le16 bs = of_nat (unat (bs ! 0) + 256 * unat (bs ! 1))"

definition le16_bytes :: "16 word \<Rightarrow> byte list" where
  "le16_bytes w = [of_nat (unat w mod 256), of_nat (unat w div 256)]"

definition le32 :: "byte list \<Rightarrow> 32 word" where
  "le32 bs = of_nat (unat (bs ! 0) + 256 * unat (bs ! 1) + 65536 * unat (bs ! 2)
                       + 16777216 * unat (bs ! 3))"

definition le32_bytes :: "32 word \<Rightarrow> byte list" where
  "le32_bytes w = [of_nat (unat w mod 256), of_nat (unat w div 256 mod 256),
                   of_nat (unat w div 65536 mod 256), of_nat (unat w div 16777216)]"

section \<open>NVM devices, areas and partitions\<close>

text \<open>
  Modelled from the spec: the device descriptor and its backend hooks (interfaces/nvmem.h
  and the drivers behind \<open>dev->ops\<close> are not among the sources). A device has a write
  and an erase granularity; its \<open>write\<close> and \<open>erase\<close> hooks may be absent; \<open>read\<close>
  returns the stored bytes; \<open>write\<close> stores the bytes, and on real flash can only clear
  bits (\<open>bit_clear\<close>); \<open>erase\<close> sets the range to \<open>0xFF\<close>. A granularity is
  positive where its hook is present (the C code divides by it).
\<close>

record nvmDevice =
  dev_id :: nat
  write_size :: nat
  erase_size :: nat
  has_write :: bool
  has_erase :: bool
  bit_clear :: bool

record nvmPartition =
  part_offset :: nat
  part_size :: nat

text \<open>An area descriptor; \<open>nbPart\<close> is the number of entries of its partition table.\<close>

record nvmDescriptor =
  area_dev :: nvmDevice
  baseAddr :: nat
  area_size :: nat
  partitions :: "nvmPartition list"

definition nbPart :: "nvmDescriptor \<Rightarrow> nat" where
  "nbPart desc = length (partitions desc)"

text \<open>\<open>nvmTab\<close>: the table of areas; \<open>nbAreas\<close> is its length.\<close>

type_synonym nvmTable = "nvmDescriptor list"

text \<open>
  The contents of the devices, and the successful calls of \<open>nvm_write\<close> and \<open>nvm_erase\<close>
  in the order the device received them (area, partition, offset, data or size).
\<close>

datatype nvm_event =
  EvWrite nat nat nat "byte list"
  | EvErase nat nat nat nat

record nvm_state =
  flash :: "nat \<Rightarrow> nat \<Rightarrow> byte"
  wlog :: "nvm_event list"

definition store_range :: "(nat \<Rightarrow> byte) \<Rightarrow> nat \<Rightarrow> byte list \<Rightarrow> (nat \<Rightarrow> byte)" where
  "store_range m address bs =
     (\<lambda>a. if address \<le> a \<and> a < address + length bs then bs ! (a - address) else m a)"

definition clear_range :: "(nat \<Rightarrow> byte) \<Rightarrow> nat \<Rightarrow> byte list \<Rightarrow> (nat \<Rightarrow> byte)" where
  "clear_range m address bs =
     (\<lambda>a. if address \<le> a \<and> a < address + length bs then m a AND bs ! (a - address) else m a)"

definition fill_range :: "(nat \<Rightarrow> byte) \<Rightarrow> nat \<Rightarrow> nat \<Rightarrow> (nat \<Rightarrow> byte)" where
  "fill_range m address n = (\<lambda>a. if address \<le> a \<and> a < address + n then 0xFF else m a)"

definition nvm_devRead :: "nvmDevice \<Rightarrow> nvm_state \<Rightarrow> nat \<Rightarrow> nat \<Rightarrow> errno + byte list" where
  "nvm_devRead d st address len = Inr (map (flash st (dev_id d)) [address ..< address + len])"

definition nvm_devWrite :: "nvmDevice \<Rightarrow> nvm_state \<Rightarrow> nat \<Rightarrow> byte list \<Rightarrow> errno + nvm_state" where
  "nvm_devWrite d st address bs =
     (if \<not> has_write d then Inl ENOTSUP
      else if address mod write_size d \<noteq> 0 then Inl EINVAL
      else if length bs mod write_size d \<noteq> 0 then Inl EINVAL
      else Inr (st\<lparr>flash := (flash st)(dev_id d :=
                   (if bit_clear d then clear_range (flash st (dev_id d)) address bs
                    else store_range (flash st (dev_id d)) address bs))\<rparr>))"

definition nvm_devErase :: "nvmDevice \<Rightarrow> nvm_state \<Rightarrow> nat \<Rightarrow> nat \<Rightarrow> errno + nvm_state" where
  "nvm_devErase d st address sz =
     (if \<not> has_erase d then Inl ENOTSUP
      else if address mod erase_size d \<noteq> 0 then Inl EINVAL
      else if sz mod erase_size d \<noteq> 0 then Inl EINVAL
      else Inr (st\<lparr>flash := (flash st)(dev_id d := fill_range (flash st (dev_id d)) address sz)\<rparr>))"

subsection \<open>The access layer\<close>

definition nvm_getDesc :: "nvmTable \<Rightarrow> nat \<Rightarrow> nvmDescriptor option" where
  "nvm_getDesc tab index = (if index \<ge> length tab then None else Some (tab ! index))"

definition nvm_getPart :: "nvmTable \<Rightarrow> nat \<Rightarrow> nat \<Rightarrow> errno + nvmPartition" where
  "nvm_getPart tab idx part =
     (case nvm_getDesc tab idx of
        None \<Rightarrow> Inl EINVAL
      | Some desc \<Rightarrow>
          if part = 0 then Inr \<lparr>part_offset = 0, part_size = area_size desc\<rparr>
          else if part > nbPart desc then Inl EINVAL
          else Inr (partitions desc ! (part - 1)))"

definition nvm_read :: "nvmTable \<Rightarrow> nvm_state \<Rightarrow> nat \<Rightarrow> nat \<Rightarrow> nat \<Rightarrow> nat \<Rightarrow> errno + byte list" where
  "nvm_read tab st idx part offset len =
     (case nvm_getPart tab idx part of
        Inl e \<Rightarrow> Inl e
      | Inr np \<Rightarrow>
          if (offset + len) mod U32 > part_size np then Inl EINVAL
          else nvm_devRead (area_dev (tab ! idx)) st
                 ((baseAddr (tab ! idx) + (offset + part_offset np) mod U32) mod U32) len)"

definition nvm_write :: "nvmTable \<Rightarrow> nvm_state \<Rightarrow> nat \<Rightarrow> nat \<Rightarrow> nat \<Rightarrow> byte list \<Rightarrow> errno + nvm_state" where
  "nvm_write tab st idx part offset bs =
     (case nvm_getPart tab idx part of
        Inl e \<Rightarrow> Inl e
      | Inr np \<Rightarrow>
          if (offset + length bs) mod U32 > part_size np then Inl EINVAL
          else (case nvm_devWrite (area_dev (tab ! idx)) st
                       ((baseAddr (tab ! idx) + (offset + part_offset np) mod U32) mod U32) bs of
                  Inl e \<Rightarrow> Inl e
                | Inr st' \<Rightarrow> Inr (st'\<lparr>wlog := wlog st' @ [EvWrite idx part offset bs]\<rparr>)))"

definition nvm_erase :: "nvmTable \<Rightarrow> nvm_state \<Rightarrow> nat \<Rightarrow> nat \<Rightarrow> nat \<Rightarrow> nat \<Rightarrow> errno + nvm_state" where
  "nvm_erase tab st idx part offset sz =
     (case nvm_getPart tab idx part of
        Inl e \<Rightarrow> Inl e
      | Inr np \<Rightarrow>
          if (offset + sz) mod U32 > part_size np then Inl EINVAL
          else (case nvm_devErase (area_dev (tab ! idx)) st
                       ((baseAddr (tab ! idx) + (offset + part_offset np) mod U32) mod U32) sz of
                  Inl e \<Rightarrow> Inl e
                | Inr st' \<Rightarrow> Inr (st'\<lparr>wlog := wlog st' @ [EvErase idx part offset sz]\<rparr>)))"

section \<open>Settings frames\<close>

text \<open>
  \<open>settings_t\<close> is a packed struct of 31 bytes. The settings store only copies and
  compares its bytes (\<open>memcpy\<close>, \<open>memcmp\<close>, struct assignment), so a value of the
  type is its byte image, a list of \<open>sizeof_settings\<close> bytes. The frame
  \<open>settings_store_t\<close> is packed as well: 4 + 2 + 2 + 31 + 2 = 41 bytes.
\<close>

type_synonym settings_t = "byte list"

definition sizeof_settings :: nat where
  "sizeof_settings = 31"

definition sizeof_store :: nat where
  "sizeof_store = 41"

definition SETTINGS_MAGIC :: "32 word" where
  "SETTINGS_MAGIC = 0x584E504F"

text \<open>
  The byte image of \<open>default_settings\<close> (\<open>CONFIG_SCREEN_CONTRAST\<close> not defined, bit
  fields allocated from the least significant bit): brightness 100, contrast 255,
  squelch 4, vox 0, timezone 0, GPS off, empty callsign, display timer \<open>TIMER_30S\<close> = 6
  with M17 CAN 0, macro menu latch set (bit 4), and zeros for the rest.
\<close>

definition default_settings :: settings_t where
  "default_settings =
     [100, 255, 4, 0, 0, 0,
      0, 0, 0, 0, 0, 0, 0, 0, 0, 0,
      0x06, 0x10, 0,
      0, 0, 0, 0, 0, 0, 0, 0, 0, 0,
      0, 0]"

record settings_store_t =
  MAGIC :: "32 word"
  slength :: "16 word"
  counter :: "16 word"
  settings :: settings_t
  crc :: "16 word"

text \<open>The bytes of a frame as they lie in memory and in the NVM.\<close>

definition store_bytes :: "settings_store_t \<Rightarrow> byte list" where
  "store_bytes s =
     le32_bytes (MAGIC s) @ le16_bytes (slength s) @ le16_bytes (counter s)
       @ settings s @ le16_bytes (crc s)"

text \<open>
  \<open>crc_ccitt\<close> (core/crc.h) is not among the sources: every function that calls it
  takes the checksum function as its first argument. The \<open>NULL\<close> checks of
  \<open>default_settings_store\<close> and \<open>update_settings_store\<close> have no counterpart: every
  caller passes the address of a field of the handle or of the caller's settings.
\<close>

type_synonym crc_fun = "byte list \<Rightarrow> 16 word"

definition default_settings_store :: "crc_fun \<Rightarrow> settings_store_t" where
  "default_settings_store crc_ccitt =
     (let s = \<lparr>MAGIC = SETTINGS_MAGIC, slength = of_nat sizeof_store, counter = 0,
                settings = default_settings, crc = 0\<rparr>
      in s\<lparr>crc := crc_ccitt (take (sizeof_store - 2) (store_bytes s))\<rparr>)"

definition update_settings_store :: "crc_fun \<Rightarrow> settings_t \<Rightarrow> settings_store_t \<Rightarrow> settings_store_t" where
  "update_settings_store crc_ccitt new_settings store =
     (let s = store\<lparr>counter := counter store + 1, slength := of_nat sizeof_store,
                     settings := new_settings\<rparr>
      in s\<lparr>crc := crc_ccitt (take (sizeof_store - 2) (store_bytes s))\<rparr>)"

text \<open>
  \<open>check_store_integrity\<close>: -1 stale, 0 corrupt, 1 valid. \<open>store->length - 2\<close> becomes a
  \<open>size_t\<close>, so it wraps below 2 (the C code then reads past the struct; \<open>take\<close> stops at
  its end).
\<close>

definition check_store_integrity :: "crc_fun \<Rightarrow> settings_store_t \<Rightarrow> int" where
  "check_store_integrity crc_ccitt store =
     (if MAGIC store \<noteq> SETTINGS_MAGIC then 0
      else if unat (slength store) > sizeof_store then 0
      else if crc store = crc_ccitt (take ((unat (slength store) + U32 - 2) mod U32) (store_bytes store))
           then (if unat (slength store) \<noteq> sizeof_store then - 1 else 1)
           else 0)"

section \<open>Scanning a partition\<close>

text \<open>
  The loop of \<open>parse_partition\<close>: its state is \<open>*offset\<close>, \<open>prev_offset\<close> and the magic
  word last read into \<open>buffer\<close>. A loop that does not end is the value \<open>None\<close>.
\<close>

partial_function (option) parse_loop ::
  "nvmTable \<Rightarrow> nvm_state \<Rightarrow> int \<Rightarrow> int \<Rightarrow> nat \<Rightarrow> nat \<Rightarrow> nat \<Rightarrow> 32 word \<Rightarrow> (errno + nat \<times> nat \<times> 32 word) option"
where
  "parse_loop tab st dev part_nb limit offset prev_offset magic =
     (if offset < limit then
        (case nvm_read tab st (u32_of_int dev) (u32_of_int part_nb) offset 6 of
           Inl e \<Rightarrow> Some (Inl e)
         | Inr buffer \<Rightarrow>
             if le32 (take 4 buffer) \<noteq> SETTINGS_MAGIC
             then Some (Inr (offset, prev_offset, le32 (take 4 buffer)))
             else parse_loop tab st dev part_nb limit
                    ((offset + unat (le16 (drop 4 buffer))) mod U32) offset (le32 (take 4 buffer)))
      else Some (Inr (offset, prev_offset, magic)))"

text \<open>
  \<open>parse_partition\<close> returns the offset of the last header before the free space.
  \<open>buffer\<close> is an uninitialised local: \<open>stack_magic\<close> is what it held on entry, read
  only when \<open>limit\<close> is 0.
\<close>

definition parse_partition ::
  "nvmTable \<Rightarrow> nvm_state \<Rightarrow> int \<Rightarrow> int \<Rightarrow> nat \<Rightarrow> 32 word \<Rightarrow> (errno + nat) option"
where
  "parse_partition tab st dev part_nb limit stack_magic =
     (case parse_loop tab st dev part_nb limit 0 0 stack_magic of
        None \<Rightarrow> None
      | Some (Inl e) \<Rightarrow> Some (Inl e)
      | Some (Inr (offset, prev_offset, magic)) \<Rightarrow>
          if magic \<noteq> 0xFFFFFFFF then Some (Inl EILSEQ)
          else if offset = prev_offset then Some (Inl ENOENT)
          else Some (Inr prev_offset))"

text \<open>
  \<open>read_store\<close>. A frame shorter than the current one is read over the defaults. For a
  length field below 10 the C code asks for \<open>length - 10\<close> bytes as a \<open>size_t\<close>, about
  4 GiB, into the 31-byte settings: where the access layer lets that read through, the
  result is \<open>EOVERRUN\<close>.
\<close>

definition read_store ::
  "nvmTable \<Rightarrow> nvm_state \<Rightarrow> int \<Rightarrow> int \<Rightarrow> nat \<Rightarrow> settings_store_t \<Rightarrow> errno + settings_store_t"
where
  "read_store tab st dev part offset store =
     (case nvm_read tab st (u32_of_int dev) (u32_of_int part) offset 8 of
        Inl e \<Rightarrow> Inl e
      | Inr hdr \<Rightarrow>
          let store1 = store\<lparr>MAGIC := le32 (take 4 hdr), slength := le16 (drop 4 hdr),
                             counter := le16 (drop 6 hdr)\<rparr>
          in if unat (slength store1) = sizeof_store then
               (case nvm_read tab st (u32_of_int dev) (u32_of_int part) ((offset + 8) mod U32)
                       (sizeof_store - 8) of
                  Inl e \<Rightarrow> Inl e
                | Inr bs \<Rightarrow> Inr (store1\<lparr>settings := take sizeof_settings bs,
                                         crc := le16 (drop sizeof_settings bs)\<rparr>))
             else if unat (slength store1) < sizeof_store then
               (case nvm_read tab st (u32_of_int dev) (u32_of_int part) ((offset + 8) mod U32)
                       ((unat (slength store1) + U32 - 10) mod U32) of
                  Inl e \<Rightarrow> Inl e
                | Inr bs \<Rightarrow>
                    if length bs > sizeof_settings then Inl EOVERRUN
                    else (case nvm_read tab st (u32_of_int dev) (u32_of_int part)
                                 ((offset + unat (slength store1) + U32 - 2) mod U32) 2 of
                            Inl e \<Rightarrow> Inl e
                          | Inr cs \<Rightarrow>
                              Inr (store1\<lparr>settings := bs @ drop (length bs) default_settings,
                                          crc := le16 cs\<rparr>)))
             else Inl E2BIG)"

text \<open>
  The loop of \<open>find_latest_valid_store\<close>: its state is \<open>end_lim\<close>, \<open>*store\<close> and
  \<open>*offset\<close>. The result is the return value (0 corrupt, 1 empty, 2 stale, 3 valid)
  with the final \<open>*store\<close> and \<open>*offset\<close>. \<open>parse_partition\<close> is called with
  \<open>end_lim > 0\<close> only, so what its buffer held on entry (taken as 0) is never read.
\<close>

partial_function (option) find_loop ::
  "crc_fun \<Rightarrow> nvmTable \<Rightarrow> nvm_state \<Rightarrow> int \<Rightarrow> int \<Rightarrow> nat \<Rightarrow> settings_store_t \<Rightarrow> nat
     \<Rightarrow> (errno + int \<times> settings_store_t \<times> nat) option"
where
  "find_loop crc_ccitt tab st dev part end_lim store offset =
     (if end_lim > 0 then
        (case parse_partition tab st dev part end_lim 0 of
           None \<Rightarrow> None
         | Some (Inl e) \<Rightarrow>
             if e = EILSEQ then Some (Inr (0, store, offset))
             else if e = ENOENT then Some (Inr (1, store, offset))
             else Some (Inl e)
         | Some (Inr read_offset) \<Rightarrow>
             (case read_store tab st dev part read_offset store of
                Inl e \<Rightarrow> Some (Inl e)
              | Inr store' \<Rightarrow>
                  let offset' = (if offset = 0 then (read_offset + unat (slength store')) mod U32
                                 else offset)
                  in if check_store_integrity crc_ccitt store' = 1
                       then Some (Inr (3, store', offset'))
                     else if check_store_integrity crc_ccitt store' = 0
                       then find_loop crc_ccitt tab st dev part
                              ((end_lim + U32 - unat (slength store')) mod U32) store' offset'
                     else if check_store_integrity crc_ccitt store' = - 1
                       then Some (Inr (2, store', offset'))
                     else find_loop crc_ccitt tab st dev part end_lim store' offset'))
      else Some (Inr (0, store, offset)))"

definition find_latest_valid_store ::
  "crc_fun \<Rightarrow> nvmTable \<Rightarrow> nvm_state \<Rightarrow> int \<Rightarrow> int \<Rightarrow> settings_store_t
     \<Rightarrow> (errno + int \<times> settings_store_t \<times> nat) option"
where
  "find_latest_valid_store crc_ccitt tab st dev part store =
     (case nvm_getPart tab (u32_of_int dev) (u32_of_int part) of
        Inl e \<Rightarrow> Some (Inl e)
      | Inr pInfo \<Rightarrow> find_loop crc_ccitt tab st dev part (part_size pInfo) store 0)"

section \<open>Writing a frame\<close>

text \<open>
  The two loops that overwrite a partition with \<open>0xFF\<close> when the device has no erase
  hook: words of four bytes while \<open>i < pInfo.size - 4\<close> (a \<open>size_t\<close> difference), then
  single bytes up to the partition's size. Each returns its last \<open>i\<close> and the state.
\<close>

partial_function (option) erase_words ::
  "nvmTable \<Rightarrow> nvm_state \<Rightarrow> int \<Rightarrow> int \<Rightarrow> nat \<Rightarrow> nat \<Rightarrow> ((errno + nat) \<times> nvm_state) option"
where
  "erase_words tab st dev part psize i =
     (if i < (psize + U32 - 4) mod U32 then
        (case nvm_write tab st (u32_of_int dev) (u32_of_int part) i [0xFF, 0xFF, 0xFF, 0xFF] of
           Inl e \<Rightarrow> Some (Inl e, st)
         | Inr st' \<Rightarrow> erase_words tab st' dev part psize ((i + 4) mod U32))
      else Some (Inr i, st))"

partial_function (option) erase_bytes ::
  "nvmTable \<Rightarrow> nvm_state \<Rightarrow> int \<Rightarrow> int \<Rightarrow> nat \<Rightarrow> nat \<Rightarrow> ((errno + nat) \<times> nvm_state) option"
where
  "erase_bytes tab st dev part psize i =
     (if i < psize then
        (case nvm_write tab st (u32_of_int dev) (u32_of_int part) i [0xFF] of
           Inl e \<Rightarrow> Some (Inl e, st)
         | Inr st' \<Rightarrow> erase_bytes tab st' dev part psize ((i + 1) mod U32))
      else Some (Inr i, st))"

text \<open>The \<open>if (erase)\<close> block of \<open>write_store\<close>, up to \<open>*offset = 0\<close>.\<close>

definition erase_partition ::
  "nvmTable \<Rightarrow> nvm_state \<Rightarrow> int \<Rightarrow> int \<Rightarrow> nat \<Rightarrow> ((errno + unit) \<times> nvm_state) option"
where
  "erase_partition tab st dev part psize =
     (case nvm_erase tab st (u32_of_int dev) (u32_of_int part) 0 psize of
        Inr st' \<Rightarrow> Some (Inr (), st')
      | Inl e \<Rightarrow>
          if e = ENOTSUP then
            (case erase_words tab st dev part psize 0 of
               None \<Rightarrow> None
             | Some (Inl e', st1) \<Rightarrow> Some (Inl e', st1)
             | Some (Inr i, st1) \<Rightarrow>
                 (case erase_bytes tab st1 dev part psize i of
                    None \<Rightarrow> None
                  | Some (Inl e', st2) \<Rightarrow> Some (Inl e', st2)
                  | Some (Inr j, st2) \<Rightarrow> Some (Inr (), st2)))
          else Some (Inl e, st))"

text \<open>
  \<open>write_store\<close> returns its return value (\<open>Inr ()\<close> is 0), the final \<open>*offset\<close> and the
  state of the NVM.
\<close>

definition write_store ::
  "nvmTable \<Rightarrow> nvm_state \<Rightarrow> int \<Rightarrow> int \<Rightarrow> settings_store_t \<Rightarrow> nat \<Rightarrow> bool
     \<Rightarrow> ((errno + unit) \<times> nat \<times> nvm_state) option"
where
  "write_store tab st dev part store offset erase =
     (case nvm_getPart tab (u32_of_int dev) (u32_of_int part) of
        Inl e \<Rightarrow> Some (Inl e, offset, st)
      | Inr pInfo \<Rightarrow>
          (case (if erase \<or> (offset + sizeof_store) mod U32 > part_size pInfo
                 then (case erase_partition tab st dev part (part_size pInfo) of
                         None \<Rightarrow> None
                       | Some (Inl e, st1) \<Rightarrow> Some (Inl e, offset, st1)
                       | Some (Inr u, st1) \<Rightarrow> Some (Inr (), 0, st1))
                 else Some (Inr (), offset, st)) of
             None \<Rightarrow> None
           | Some (Inl e, offset1, st1) \<Rightarrow> Some (Inl e, offset1, st1)
           | Some (Inr u, offset1, st1) \<Rightarrow>
               (case nvm_write tab st1 (u32_of_int dev) (u32_of_int part) offset1 (store_bytes store) of
                  Inl e \<Rightarrow> Some (Inl e, offset1, st1)
                | Inr st2 \<Rightarrow> Some (Inr (), (offset1 + sizeof_store) mod U32, st2))))"

section \<open>The storage handle: init, load, save\<close>

record settings_storage_t =
  dev :: int
  part_A :: int
  part_B :: int
  part_A_offset :: nat
  part_B_offset :: nat
  latest_store :: settings_store_t
  initialized :: bool
  write_needed :: bool
  part_A_status :: int
  part_B_status :: int

text \<open>A zero-initialised store and handle, as the caller allocates them.\<close>

definition zero_store :: settings_store_t where
  "zero_store = \<lparr>MAGIC = 0, slength = 0, counter = 0, settings =
     [0, 0, 0, 0, 0, 0, 0, 0, 0, 0, 0, 0, 0, 0, 0, 0, 0, 0, 0, 0, 0, 0, 0, 0, 0, 0, 0, 0, 0, 0, 0],
     crc = 0\<rparr>"

definition zero_storage :: settings_storage_t where
  "zero_storage = \<lparr>dev = 0, part_A = 0, part_B = 0, part_A_offset = 0, part_B_offset = 0,
     latest_store = zero_store, initialized = False, write_needed = False,
     part_A_status = 0, part_B_status = 0\<rparr>"

definition settings_storage_init ::
  "crc_fun \<Rightarrow> settings_storage_t \<Rightarrow> int \<Rightarrow> int \<Rightarrow> int \<Rightarrow> (errno + unit) \<times> settings_storage_t"
where
  "settings_storage_init crc_ccitt s nvm_dev pA pB =
     (Inr (), s\<lparr>dev := nvm_dev, part_A := pA, part_B := pB, initialized := False,
                latest_store := default_settings_store crc_ccitt\<rparr>)"

text \<open>
  The two scan steps of \<open>settings_storage_load\<close>: what the return value of
  \<open>find_latest_valid_store\<close> does to the handle, and whether the store found is stale.
\<close>

definition scan_A :: "settings_storage_t \<Rightarrow> int \<Rightarrow> nat \<Rightarrow> settings_storage_t \<times> bool" where
  "scan_A s ret offset_A =
     (if ret = 0 then (s\<lparr>part_A_status := - 1\<rparr>, False)
      else if ret = 1 then (s\<lparr>part_A_offset := 0, part_A_status := 0\<rparr>, False)
      else if ret = 2 then (s\<lparr>part_A_offset := offset_A, part_A_status := 1\<rparr>, True)
      else if ret = 3 then (s\<lparr>part_A_offset := offset_A, part_A_status := 1\<rparr>, False)
      else (s, False))"

definition scan_B :: "settings_storage_t \<Rightarrow> int \<Rightarrow> nat \<Rightarrow> settings_storage_t \<times> bool" where
  "scan_B s ret offset_B =
     (if ret = 0 then (s\<lparr>part_B_status := - 1\<rparr>, False)
      else if ret = 1 then (s\<lparr>part_B_offset := 0, part_B_status := 0\<rparr>, False)
      else if ret = 2 then (s\<lparr>part_B_offset := offset_B, part_B_status := 1\<rparr>, True)
      else if ret = 3 then (s\<lparr>part_B_offset := offset_B, part_B_status := 1\<rparr>, False)
      else (s, False))"

text \<open>The last part of \<open>settings_storage_load\<close> ("Do something with the results").\<close>

definition load_select ::
  "crc_fun \<Rightarrow> settings_storage_t \<Rightarrow> settings_store_t \<Rightarrow> bool \<Rightarrow> settings_store_t \<Rightarrow> bool
     \<Rightarrow> settings_storage_t"
where
  "load_select crc_ccitt s store_A store_A_stale store_B store_B_stale =
     (if part_A_status s \<le> 0 then
        (if part_B_status s = 1
         then s\<lparr>latest_store := store_B, initialized := True, write_needed := store_B_stale\<rparr>
         else s\<lparr>latest_store := default_settings_store crc_ccitt, initialized := True,
                 write_needed := True\<rparr>)
      else
        (if part_B_status s = 1 then
           (if unat (counter store_A) \<ge> unat (counter store_B)
            then s\<lparr>latest_store := store_A, write_needed := store_A_stale, initialized := True\<rparr>
            else s\<lparr>latest_store := store_B, write_needed := store_B_stale, initialized := True\<rparr>)
         else s\<lparr>latest_store := store_A, write_needed := store_A_stale, initialized := True\<rparr>))"

text \<open>
  \<open>settings_storage_load\<close> takes the handle and \<open>caller_settings\<close>, the content of the
  caller's buffer \<open>*settings\<close> before the call. It returns the error (\<open>Inl\<close>), or, for
  the return value 0, the content of the caller's buffer after the call (\<open>Inr\<close>), and the
  handle. The only \<open>memcpy\<close> into \<open>*settings\<close> is in the branch \<open>if (s->initialized)\<close>;
  every exit of the other branch sets \<open>latest_store\<close>, \<open>initialized\<close> and
  \<open>write_needed\<close> in the handle and returns 0 with the caller's buffer as it was.
  \<open>store_A\<close> and \<open>store_B\<close> are uninitialised locals, read only after
  \<open>find_latest_valid_store\<close> has filled them (return value 2 or 3); they start as
  \<open>zero_store\<close>.
\<close>

definition settings_storage_load ::
  "crc_fun \<Rightarrow> nvmTable \<Rightarrow> nvm_state \<Rightarrow> settings_storage_t \<Rightarrow> settings_t
     \<Rightarrow> ((errno + settings_t) \<times> settings_storage_t) option"
where
  "settings_storage_load crc_ccitt tab st s caller_settings =
     (if initialized s then Some (Inr (settings (latest_store s)), s)
      else
        (case find_latest_valid_store crc_ccitt tab st (dev s) (part_A s) zero_store of
           None \<Rightarrow> None
         | Some (Inl e) \<Rightarrow> Some (Inl e, s)
         | Some (Inr (retA, store_A, offset_A)) \<Rightarrow>
             (case find_latest_valid_store crc_ccitt tab st (dev s) (part_B s) zero_store of
                None \<Rightarrow> None
              | Some (Inl e) \<Rightarrow> Some (Inl e, fst (scan_A s retA offset_A))
              | Some (Inr (retB, store_B, offset_B)) \<Rightarrow>
                  (let s1 = fst (scan_A s retA offset_A);
                       store_A_stale = snd (scan_A s retA offset_A);
                       s2 = fst (scan_B s1 retB offset_B);
                       store_B_stale = snd (scan_B s1 retB offset_B);
                       s3 = load_select crc_ccitt s2 store_A store_A_stale store_B store_B_stale
                   in Some (Inr caller_settings, s3)))))"

text \<open>
  \<open>settings_storage_save\<close> returns its return value, the handle and the state of the
  NVM. \<open>memcmp\<close> over two \<open>settings_t\<close> is the comparison of their byte images.
\<close>

definition settings_storage_save ::
  "crc_fun \<Rightarrow> nvmTable \<Rightarrow> nvm_state \<Rightarrow> settings_storage_t \<Rightarrow> settings_t
     \<Rightarrow> ((errno + unit) \<times> settings_storage_t \<times> nvm_state) option"
where
  "settings_storage_save crc_ccitt tab st s new_settings =
     (let s1 = (if settings (latest_store s) \<noteq> new_settings \<or> write_needed s
                then s\<lparr>latest_store := update_settings_store crc_ccitt new_settings (latest_store s),
                        write_needed := True\<rparr>
                else s)
      in if write_needed s1 then
           (if unat (counter (latest_store s1)) mod 2 \<noteq> 0 then
              (case write_store tab st (dev s1) (part_B s1) (latest_store s1) (part_B_offset s1)
                      (part_B_status s1 = - 1) of
                 None \<Rightarrow> None
               | Some (Inl e, off, st') \<Rightarrow> Some (Inl e, s1\<lparr>part_B_offset := off\<rparr>, st')
               | Some (Inr u, off, st') \<Rightarrow>
                   Some (Inr (), s1\<lparr>part_B_offset := off, part_B_status := 1, write_needed := False\<rparr>, st'))
            else
              (case write_store tab st (dev s1) (part_A s1) (latest_store s1) (part_A_offset s1)
                      (part_A_status s1 = - 1) of
                 None \<Rightarrow> None
               | Some (Inl e, off, st') \<Rightarrow> Some (Inl e, s1\<lparr>part_A_offset := off\<rparr>, st')
               | Some (Inr u, off, st') \<Rightarrow>
                   Some (Inr (), s1\<lparr>part_A_offset := off, part_A_status := 1, write_needed := False\<rparr>, st')))
         else Some (Inr (), s1\<lparr>write_needed := False\<rparr>, st))"

section \<open>The checksum and concrete stores\<close>

text \<open>
  Modelled from the spec: \<open>crc_ccitt\<close> (core/crc.c is not among the sources) as
  CRC-16/CCITT, polynomial \<open>0x1021\<close>, most significant bit first, with the initial
  value \<open>0xFFFF\<close> that gives the spec's test vector \<open>0x29B1\<close> over the ASCII digits
  \<open>123456789\<close>. The register is a natural number below \<open>2 ^ 16\<close>.
\<close>

definition crc_bit :: "nat \<Rightarrow> nat" where
  "crc_bit c = (if c \<ge> 32768 then (2 * c) mod 65536 XOR 0x1021 else 2 * c)"

definition crc_byte :: "nat \<Rightarrow> byte \<Rightarrow> nat" where
  "crc_byte c b = crc_bit (crc_bit (crc_bit (crc_bit (crc_bit (crc_bit (crc_bit (crc_bit
       (c XOR 256 * unat b))))))))"

definition crc16_ccitt :: crc_fun where
  "crc16_ccitt bs = of_nat (foldl crc_byte 0xFFFF bs)"

text \<open>
  A byte-writable flash device, and one area over it with two adjacent partitions of
  \<open>psz\<close> bytes each: partition 1 is used as A, partition 2 as B.
\<close>

definition flash_dev :: nvmDevice where
  "flash_dev = \<lparr>dev_id = 0, write_size = 1, erase_size = 1, has_write = True,
                 has_erase = True, bit_clear = True\<rparr>"

definition ab_table :: "nat \<Rightarrow> nvmTable" where
  "ab_table psz =
     [\<lparr>area_dev = flash_dev, baseAddr = 0, area_size = 2 * psz,
       partitions = [\<lparr>part_offset = 0, part_size = psz\<rparr>, \<lparr>part_offset = psz, part_size = psz\<rparr>]\<rparr>]"

definition erased :: nvm_state where
  "erased = \<lparr>flash = (\<lambda>d a. 0xFF), wlog = []\<rparr>"

text \<open>A zeroed handle after \<open>settings_storage_init\<close> on area 0, partitions 1 and 2.\<close>

definition fresh_storage :: settings_storage_t where
  "fresh_storage = snd (settings_storage_init crc16_ccitt zero_storage 0 1 2)"

text \<open>Settings payloads of 31 equal bytes.\<close>

definition payload :: "byte \<Rightarrow> settings_t" where
  "payload b = [b, b, b, b, b, b, b, b, b, b, b, b, b, b, b, b, b, b, b, b, b, b, b, b, b, b,
                b, b, b, b, b]"

text \<open>What the caller's \<open>settings_t\<close> buffer holds before it is passed to a load.\<close>

definition caller_buffer :: settings_t where
  "caller_buffer = payload 0xEE"

text \<open>The frame a save writes for a payload when the counter reaches \<open>c\<close>.\<close>

definition frame_of :: "16 word \<Rightarrow> settings_t \<Rightarrow> settings_store_t" where
  "frame_of c p =
     update_settings_store crc16_ccitt p ((default_settings_store crc16_ccitt)\<lparr>counter := c - 1\<rparr>)"

text \<open>The NVM with the given bytes at the start of partition 1 and of partition 2 of
  \<open>ab_table psz\<close>, erased elsewhere.\<close>

definition ab_state :: "nat \<Rightarrow> byte list \<Rightarrow> byte list \<Rightarrow> nvm_state" where
  "ab_state psz bytes_A bytes_B =
     \<lparr>flash = (\<lambda>d. store_range (store_range (\<lambda>a. 0xFF) 0 bytes_A) psz bytes_B), wlog = []\<rparr>"

text \<open>
  Scenario C: both partitions hold one valid frame with counter 7 and different payloads.
  Scenario D: partition A holds a valid frame with counter 10; partition B holds a frame
  with counter 11, correct magic and length, and a CRC field that is off by one.
\<close>

definition scenario_C :: nvm_state where
  "scenario_C = ab_state 128 (store_bytes (frame_of 7 (payload 1))) (store_bytes (frame_of 7 (payload 2)))"

definition torn_frame :: settings_store_t where
  "torn_frame = (frame_of 11 (payload 2))\<lparr>crc := crc (frame_of 11 (payload 2)) + 1\<rparr>"

definition scenario_D :: nvm_state where
  "scenario_D = ab_state 128 (store_bytes (frame_of 10 (payload 1))) (store_bytes torn_frame)"

text \<open>
  A partition A with a valid frame (counter 10), then the frame with the wrong CRC, then
  erased space; and a partition A that starts with the magic word and a length field of 0.
\<close>

definition corrupt_tail_state :: nvm_state where
  "corrupt_tail_state =
     ab_state 128 (store_bytes (frame_of 10 (payload 1)) @ store_bytes torn_frame) []"

definition zero_length_state :: nvm_state where
  "zero_length_state = ab_state 128 [0x4F, 0x50, 0x4E, 0x58, 0, 0] []"

subsection \<open>Power loss\<close>

text \<open>
  A run of saves, stopping at the first one that fails. The write stream of a run is the
  data of the \<open>EvWrite\<close> events of its log, in order. \<open>truncate_log n\<close> keeps what the
  device received when power is lost after \<open>n\<close> bytes of that stream (an erase that
  follows the last byte received has not happened); \<open>replay\<close> applies a log to a state.
\<close>

fun save_all ::
  "crc_fun \<Rightarrow> nvmTable \<Rightarrow> nvm_state \<Rightarrow> settings_storage_t \<Rightarrow> settings_t list
     \<Rightarrow> ((errno + unit) \<times> settings_storage_t \<times> nvm_state) option"
where
  "save_all crc_ccitt tab st s [] = Some (Inr (), s, st)"
| "save_all crc_ccitt tab st s (p # ps) =
     (case settings_storage_save crc_ccitt tab st s p of
        None \<Rightarrow> None
      | Some (Inl e, s', st') \<Rightarrow> Some (Inl e, s', st')
      | Some (Inr u, s', st') \<Rightarrow> save_all crc_ccitt tab st' s' ps)"

fun truncate_log :: "nat \<Rightarrow> nvm_event list \<Rightarrow> nvm_event list" where
  "truncate_log n [] = []"
| "truncate_log n (EvWrite idx part off bs # es) =
     (if n = 0 then []
      else if length bs \<le> n then EvWrite idx part off bs # truncate_log (n - length bs) es
      else [EvWrite idx part off (take n bs)])"
| "truncate_log n (EvErase idx part off sz # es) =
     (if n = 0 then [] else EvErase idx part off sz # truncate_log n es)"

fun replay :: "nvmTable \<Rightarrow> nvm_state \<Rightarrow> nvm_event list \<Rightarrow> nvm_state" where
  "replay tab st [] = st"
| "replay tab st (EvWrite idx part off bs # es) =
     (case nvm_write tab st idx part off bs of Inl e \<Rightarrow> st | Inr st' \<Rightarrow> replay tab st' es)"
| "replay tab st (EvErase idx part off sz # es) =
     (case nvm_erase tab st idx part off sz of Inl e \<Rightarrow> st | Inr st' \<Rightarrow> replay tab st' es)"

text \<open>
  The partitions that the frame writes of a log went to, in order: a frame write is an
  \<open>EvWrite\<close> of \<open>sizeof_store\<close> bytes (the writes that overwrite a partition with
  \<open>0xFF\<close> have four bytes or one).
\<close>

fun frame_parts :: "nvm_event list \<Rightarrow> nat list" where
  "frame_parts [] = []"
| "frame_parts (EvWrite idx part off bs # es) =
     (if length bs = sizeof_store then part # frame_parts es else frame_parts es)"
| "frame_parts (EvErase idx part off sz # es) = frame_parts es"

text \<open>
  Two partitions of 128 KiB, erased. After init and a first load, \<open>payload 1\<close> and then
  \<open>payload 2\<close> are saved; \<open>two_saves_log\<close> is the log of the two saves. In
  \<open>power_cut_state\<close> the device has received the 41 bytes of the first frame and the
  first 4 bytes of the second.
\<close>

definition loaded_storage :: settings_storage_t where
  "loaded_storage =
     (case settings_storage_load crc16_ccitt (ab_table 131072) erased fresh_storage caller_buffer of
        Some (r, s) \<Rightarrow> s | None \<Rightarrow> fresh_storage)"

definition two_saves_log :: "nvm_event list" where
  "two_saves_log =
     (case save_all crc16_ccitt (ab_table 131072) erased loaded_storage [payload 1, payload 2] of
        Some (r, s, st) \<Rightarrow> wlog st | None \<Rightarrow> [])"

definition power_cut_state :: nvm_state where
  "power_cut_state = replay (ab_table 131072) erased (truncate_log 45 two_saves_log)"

text \<open>
  The round trip on two erased partitions of 128 bytes: the save of \<open>payload 1\<close> on the
  handle that \<open>settings_storage_init\<close> returned, and the load that follows it on the
  handle and the NVM that the save returned, into \<open>caller_buffer\<close>.
\<close>

definition round_trip_save :: "((errno + unit) \<times> settings_storage_t \<times> nvm_state) option" where
  "round_trip_save =
     settings_storage_save crc16_ccitt (ab_table 128) erased fresh_storage (payload 1)"

definition round_trip_load :: "((errno + settings_t) \<times> settings_storage_t) option" where
  "round_trip_load =
     (case round_trip_save of
        None \<Rightarrow> None
      | Some (r, s, st) \<Rightarrow> settings_storage_load crc16_ccitt (ab_table 128) st s caller_buffer)"

section \<open>Evaluation rules\<close>

lemmas nvm_defs = U32_def u32_of_int_def le16_def le32_def le16_bytes_def le32_bytes_def
  store_range_def clear_range_def fill_range_def nvm_devRead_def nvm_devWrite_def nvm_devErase_def
  nvm_getDesc_def nvm_getPart_def nvm_read_def nvm_write_def nvm_erase_def nbPart_def

lemmas settings_defs = sizeof_settings_def sizeof_store_def SETTINGS_MAGIC_def default_settings_def
  store_bytes_def default_settings_store_def update_settings_store_def check_store_integrity_def
  parse_partition_def read_store_def find_latest_valid_store_def erase_partition_def write_store_def
  zero_store_def zero_storage_def settings_storage_init_def scan_A_def scan_B_def load_select_def
  settings_storage_load_def settings_storage_save_def
  parse_loop.simps find_loop.simps erase_words.simps erase_bytes.simps

lemmas demo_defs = crc_bit_def crc_byte_def crc16_ccitt_def flash_dev_def ab_table_def erased_def
  fresh_storage_def payload_def caller_buffer_def frame_of_def ab_state_def
  scenario_C_def torn_frame_def scenario_D_def
  corrupt_tail_state_def zero_length_state_def

lemma crc16_ccitt_check: "crc16_ccitt [0x31, 0x32, 0x33, 0x34, 0x35, 0x36, 0x37, 0x38, 0x39] = 0x29B1"
  by (simp add: demo_defs)

lemma le16_roundtrip: "le16 (le16_bytes w) = w"
proof -
  have "unat w < 65536" using unsigned_less [of w] by simp
  then have "unat w div 256 < 256" by simp
  then show ?thesis
    by (simp add: le16_def le16_bytes_def unat_of_nat)
qed

lemma le32_sum:
  fixes n :: nat
  shows "n mod 256 + 256 * (n div 256 mod 256) + 65536 * (n div 65536 mod 256)
      + 16777216 * (n div 16777216) = n"
proof -
  define a where "a = n div 256"
  define b where "b = a div 256"
  define c where "c = b div 256"
  have 1: "n div 65536 = b" by (simp add: a_def b_def div_mult2_eq)
  have 2: "n div 16777216 = c" by (simp add: a_def b_def c_def div_mult2_eq)
  have 3: "n = n mod 256 + 256 * a" by (simp add: a_def)
  have 4: "a = a mod 256 + 256 * b" by (simp add: b_def)
  have 5: "b = b mod 256 + 256 * c" by (simp add: c_def)
  have "n mod 256 + 256 * (a mod 256) + 65536 * (b mod 256) + 16777216 * c = n"
    using 3 4 5 by linarith
  then show ?thesis by (simp add: 1 2 a_def [symmetric])
qed

lemma le32_roundtrip: "le32 (le32_bytes w) = w"
proof -
  have "unat w < 4294967296" using unsigned_less [of w] by simp
  then have "unat w div 16777216 < 256" by simp
  then show ?thesis
    by (simp add: le32_def le32_bytes_def unat_of_nat le32_sum)
qed

text \<open>Reading a successful result off an evaluated call.\<close>

lemma ok_resultD:
  assumes "case r of None \<Rightarrow> False | Some (Inl e, s', st') \<Rightarrow> False | Some (Inr u, s', st') \<Rightarrow> True"
  shows "\<exists>s' st'. r = Some (Inr (), s', st')"
proof (cases r)
  case None
  with assms show ?thesis by simp
next
  case (Some p)
  obtain x s' st' where p: "p = (x, s', st')" by (cases p) auto
  show ?thesis
  proof (cases x)
    case (Inl e)
    with assms Some p show ?thesis by simp
  next
    case (Inr u)
    with Some p show ?thesis by simp
  qed
qed

section \<open>Save: the handle after a successful call\<close>

text \<open>
  C10. Whenever \<open>settings_storage_save\<close> returns 0, the handle afterwards has
  \<open>write_needed\<close> false and its \<open>latest_store.settings\<close> equal to the payload passed
  in, whether or not the call wrote to the NVM.
\<close>

theorem save_ok_handle:
  assumes "settings_storage_save crc_ccitt tab st s new_settings = Some (Inr (), s', st')"
  shows "write_needed s' = False \<and> settings (latest_store s') = new_settings"
  using assms
  by (auto simp: settings_storage_save_def update_settings_store_def Let_def
      split: if_splits option.splits sum.splits prod.splits)

theorem save_ok_handle_witness:
  "\<exists>s' st'. settings_storage_save crc16_ccitt (ab_table 128) erased fresh_storage (payload 1)
       = Some (Inr (), s', st')
     \<and> write_needed s' = False \<and> settings (latest_store s') = payload 1"
proof -
  have "case settings_storage_save crc16_ccitt (ab_table 128) erased fresh_storage (payload 1) of
          None \<Rightarrow> False | Some (Inl e, s', st') \<Rightarrow> False | Some (Inr u, s', st') \<Rightarrow> True"
    by (simp add: nvm_defs settings_defs demo_defs Let_def cong: let_weak_cong)
  then obtain s' st' where
    e: "settings_storage_save crc16_ccitt (ab_table 128) erased fresh_storage (payload 1)
       = Some (Inr (), s', st')"
    using ok_resultD by blast
  from save_ok_handle [OF e] e show ?thesis by blast
qed

section \<open>Load: choosing between the two partitions\<close>

text \<open>
  A load on a handle that is not yet initialised never changes the caller's buffer: when
  it returns 0 the buffer holds what it held before, and the handle is initialised. A load
  on an initialised handle copies \<open>latest_store.settings\<close> and leaves the handle alone.
\<close>

lemma first_load_keeps_buffer:
  assumes "\<not> initialized s"
    and "settings_storage_load crc_ccitt tab st s buf = Some (Inr b, s')"
  shows "b = buf \<and> initialized s'"
  using assms
  by (auto simp: settings_storage_load_def load_select_def Let_def
      split: option.splits sum.splits prod.splits if_splits)

lemma later_load_copies:
  assumes "initialized s"
  shows "settings_storage_load crc_ccitt tab st s buf = Some (Inr (settings (latest_store s)), s)"
  using assms by (simp add: settings_storage_load_def)

text \<open>
  When the scans of both partitions end on a valid or stale frame (return value 2 or 3),
  the first load returns 0 and puts the frame with the greater 16-bit counter into
  \<open>latest_store\<close>, partition A's frame when the counters are equal; \<open>write_needed\<close>
  then tells whether that frame was stale. The caller's buffer is not written.
\<close>

lemma load_selects_greater_counter:
  assumes "\<not> initialized s"
    and "find_latest_valid_store crc_ccitt tab st (dev s) (part_A s) zero_store
           = Some (Inr (retA, store_A, offset_A))"
    and "find_latest_valid_store crc_ccitt tab st (dev s) (part_B s) zero_store
           = Some (Inr (retB, store_B, offset_B))"
    and "retA = 2 \<or> retA = 3" and "retB = 2 \<or> retB = 3"
  shows "\<exists>s'. settings_storage_load crc_ccitt tab st s buf = Some (Inr buf, s')
           \<and> latest_store s' = (if unat (counter store_A) \<ge> unat (counter store_B)
                                 then store_A else store_B)
           \<and> write_needed s' = (if unat (counter store_A) \<ge> unat (counter store_B)
                                 then retA = 2 else retB = 2)
           \<and> initialized s'"
  using assms
  by (auto simp: settings_storage_load_def scan_A_def scan_B_def load_select_def Let_def)

lemma scan_C_A: "find_latest_valid_store crc16_ccitt (ab_table 128) scenario_C 0 1 zero_store
         = Some (Inr (3, frame_of 7 (payload 1), 41))"
    by (simp add: nvm_defs settings_defs demo_defs Let_def cong: let_weak_cong)

lemma scan_C_B: "find_latest_valid_store crc16_ccitt (ab_table 128) scenario_C 0 2 zero_store
         = Some (Inr (3, frame_of 7 (payload 2), 41))"
    by (simp add: nvm_defs settings_defs demo_defs Let_def cong: let_weak_cong)

lemma fresh_fields: "dev fresh_storage = 0" "part_A fresh_storage = 1" "part_B fresh_storage = 2"
  "\<not> initialized fresh_storage"
  by (simp_all add: fresh_storage_def settings_storage_init_def zero_storage_def)

lemma frame_of_fields: "counter (frame_of c p) = c" "settings (frame_of c p) = p"
  by (simp_all add: frame_of_def update_settings_store_def Let_def)

text \<open>
  C5. The claim is that with both partitions valid at counter 7 and different payloads
  (scenario C) the load returns A's payload. The first load on a fresh handle returns 0
  and selects A's frame into \<open>latest_store\<close> with \<open>write_needed\<close> false, as claimed
  for the selection, but the caller's buffer still holds what it held before the call,
  not A's payload: the branch taken when the handle is not initialised has no
  \<open>memcpy\<close> into \<open>*settings\<close>.
\<close>

theorem tie_load_leaves_buffer:
  "map_option (\<lambda>r. (fst r, latest_store (snd r), write_needed (snd r)))
     (settings_storage_load crc16_ccitt (ab_table 128) scenario_C fresh_storage caller_buffer)
     = Some (Inr caller_buffer, frame_of 7 (payload 1), False)
   \<and> settings (frame_of 7 (payload 1)) = payload 1
   \<and> caller_buffer \<noteq> payload 1"
proof -
  have "caller_buffer \<noteq> payload 1"
    by (simp add: caller_buffer_def payload_def)
  then show ?thesis
    by (simp add: settings_storage_load_def fresh_fields scan_C_A scan_C_B scan_A_def scan_B_def
        load_select_def Let_def frame_of_fields)
qed







section \<open>Scanning: what the code does on damaged partitions\<close>

text \<open>
  C3. The claim is that \<open>find_latest_valid_store\<close> backs off past a corrupt tail frame
  and reports the valid frame before it. On \<open>corrupt_tail_state\<close> (a valid frame, then
  a frame whose CRC is wrong, then erased space) the older frame passes the integrity
  check and the tail frame fails it, yet the function returns 0 (corrupt) with the tail
  frame: lowering \<open>end_lim\<close> makes \<open>parse_partition\<close> either find the same last
  header again or stop on the limit with the magic word in its buffer (\<open>EILSEQ\<close>).
\<close>

theorem corrupt_tail_reported_corrupt:
  "check_store_integrity crc16_ccitt (frame_of 10 (payload 1)) = 1
   \<and> check_store_integrity crc16_ccitt torn_frame = 0
   \<and> find_latest_valid_store crc16_ccitt (ab_table 128) corrupt_tail_state 0 1 zero_store
       = Some (Inr (0, torn_frame, 82))"
  by (simp add: nvm_defs settings_defs demo_defs Let_def cong: let_weak_cong)

text \<open>
  C9. The claim is that \<open>parse_partition\<close> terminates for every partition content. A
  header with the magic word and a length field of 0 leaves \<open>*offset\<close> where it is:
  the loop reads the same header forever.
\<close>

lemma parse_loop_zero_length:
  assumes rd: "nvm_read tab st (u32_of_int d) (u32_of_int p) 0 6 = Inr buffer"
    and magic: "le32 (take 4 buffer) = SETTINGS_MAGIC"
    and len: "le16 (drop 4 buffer) = 0"
    and limit: "0 < limit"
  shows "parse_loop tab st d p limit 0 prev_offset magic = None"
proof -
  have aux: "\<not> (tab' = tab \<and> st' = st \<and> d' = d \<and> p' = p \<and> limit' = limit \<and> offset' = 0)"
    if "parse_loop tab' st' d' p' limit' offset' prev' magic' = Some y"
    for tab' st' d' p' limit' offset' prev' magic' y
  proof (rule parse_loop.raw_induct [where P = "\<lambda>t s dd pp lim off prv mg r.
           \<not> (t = tab \<and> s = st \<and> dd = d \<and> pp = p \<and> lim = limit \<and> off = 0)", OF _ that],
         goal_cases)
    case (1 loop t s dd pp lim off prv mg r)
    show ?case
    proof
      assume eq: "t = tab \<and> s = st \<and> dd = d \<and> pp = p \<and> lim = limit \<and> off = 0"
      with 1(2) rd magic len limit
      have "loop tab st d p limit 0 0 SETTINGS_MAGIC = Some r"
        by (simp add: U32_def)
      from 1(1) [OF this] show False by simp
    qed
  qed
  show ?thesis
  proof (cases "parse_loop tab st d p limit 0 prev_offset magic")
    case None
    then show ?thesis .
  next
    case (Some a)
    from aux [OF Some] show ?thesis by simp
  qed
qed

text \<open>
  C9 on \<open>zero_length_state\<close>: the call does not return.
\<close>

theorem parse_partition_zero_length_diverges:
  "parse_partition (ab_table 128) zero_length_state 0 1 128 0 = None"
proof -
  have rd: "nvm_read (ab_table 128) zero_length_state (u32_of_int 0) (u32_of_int 1) 0 6
        = Inr (map (flash zero_length_state 0) [0..<6])"
    by (simp add: nvm_defs demo_defs)
  have "parse_loop (ab_table 128) zero_length_state 0 1 128 0 0 0 = None"
    by (rule parse_loop_zero_length [OF rd]) (simp_all add: nvm_defs settings_defs demo_defs)
  then show ?thesis by (simp add: parse_partition_def)
qed

section \<open>The access layer's bounds check\<close>

text \<open>
  C8. The claim is that \<open>nvm_read\<close>, \<open>nvm_write\<close> and \<open>nvm_erase\<close> reject every
  request whose \<open>offset + len\<close> overflows. With offset \<open>0xFFFFFFFF\<close> and length 2 the
  32-bit sum is 1, the check passes, and the request reaches the device.
\<close>

theorem access_bounds_wrap:
  "nvm_read (ab_table 128) erased 0 1 4294967295 2 = Inr [0xFF, 0xFF]
   \<and> (case nvm_write (ab_table 128) erased 0 1 4294967295 [1, 2] of
         Inl e \<Rightarrow> None | Inr st' \<Rightarrow> Some (wlog st')) = Some [EvWrite 0 1 4294967295 [1, 2]]
   \<and> (case nvm_erase (ab_table 128) erased 0 1 4294967295 2 of
         Inl e \<Rightarrow> None | Inr st' \<Rightarrow> Some (wlog st')) = Some [EvErase 0 1 4294967295 2]"
  by (simp add: nvm_defs demo_defs)

text \<open>The parts of C8 that hold: the check without overflow, and the partition lookup.\<close>

lemma nvm_read_out_of_bounds:
  assumes "nvm_getPart tab idx part = Inr np" and "offset + len < U32"
    and "offset + len > part_size np"
  shows "nvm_read tab st idx part offset len = Inl EINVAL"
  using assms by (simp add: nvm_read_def)

lemma nvm_write_out_of_bounds:
  assumes "nvm_getPart tab idx part = Inr np" and "offset + length bs < U32"
    and "offset + length bs > part_size np"
  shows "nvm_write tab st idx part offset bs = Inl EINVAL"
  using assms by (simp add: nvm_write_def)

lemma nvm_erase_out_of_bounds:
  assumes "nvm_getPart tab idx part = Inr np" and "offset + sz < U32"
    and "offset + sz > part_size np"
  shows "nvm_erase tab st idx part offset sz = Inl EINVAL"
  using assms by (simp add: nvm_erase_def)

lemma nvm_getPart_beyond:
  assumes "nvm_getDesc tab idx = Some desc" and "part > nbPart desc"
  shows "nvm_getPart tab idx part = Inl EINVAL"
  using assms by (simp add: nvm_getPart_def)

lemma nvm_getPart_whole:
  assumes "nvm_getDesc tab idx = Some desc"
  shows "nvm_getPart tab idx 0 = Inr \<lparr>part_offset = 0, part_size = area_size desc\<rparr>"
  using assms by (simp add: nvm_getPart_def)

section \<open>Power loss during a save\<close>

lemma loaded_storage_eval: "loaded_storage = fresh_storage\<lparr>part_A_offset := 0, part_A_status := 0, part_B_offset := 0,
     part_B_status := 0, initialized := True, write_needed := True\<rparr>"
  by (simp add: loaded_storage_def nvm_defs settings_defs demo_defs Let_def cong: let_weak_cong)

lemma two_saves_log_eval: "two_saves_log =
    [EvWrite 0 2 0 (store_bytes (frame_of 1 (payload 1))),
     EvWrite 0 1 0 (store_bytes (frame_of 2 (payload 2)))]"
  by (simp add: two_saves_log_def loaded_storage_eval nvm_defs settings_defs demo_defs Let_def cong: let_weak_cong)

text \<open>
  C1. The claim is that after a power loss at any point of the write stream a fresh load
  returns the last or the last but one payload, and never fails. In
  \<open>power_cut_state\<close> the second save was cut after the magic word of its frame: the
  length field of that header still reads \<open>0xFFFF\<close>, \<open>parse_partition\<close> accepts the
  header because the word 65535 bytes further on is erased, \<open>read_store\<close> returns
  \<open>E2BIG\<close>, and \<open>settings_storage_load\<close> returns that error although partition B holds
  the first payload in a valid frame.
\<close>

theorem power_cut_load_fails:
  "map_option fst
     (settings_storage_load crc16_ccitt (ab_table 131072) power_cut_state fresh_storage caller_buffer)
     = Some (Inl E2BIG)
   \<and> find_latest_valid_store crc16_ccitt (ab_table 131072) power_cut_state 0 2 zero_store
     = Some (Inr (3, frame_of 1 (payload 1), 41))"
  by (simp add: power_cut_state_def two_saves_log_eval nvm_defs settings_defs demo_defs Let_def cong: let_weak_cong)


text \<open>
  A second way to the same failure, without any power loss: partitions of 128 bytes are
  full after three frames with 5 bytes to spare, the 6-byte header read at offset 123 is
  out of bounds, and a fresh load after six saves returns \<open>EINVAL\<close>.
\<close>

lemma full_partitions_load_fails:
  "(case save_all crc16_ccitt (ab_table 128) erased fresh_storage
           [payload 1, payload 2, payload 3, payload 4, payload 5, payload 6] of
      None \<Rightarrow> None
    | Some (r, s, st) \<Rightarrow>
        map_option (\<lambda>l. (r, frame_parts (wlog st), fst l))
          (settings_storage_load crc16_ccitt (ab_table 128) st fresh_storage caller_buffer))
     = Some (Inr (), [2, 1, 2, 1, 2, 1], Inl EINVAL)"
  by (simp add: nvm_defs settings_defs demo_defs Let_def cong: let_weak_cong)

section \<open>Save: which partition is written, and how often\<close>

text \<open>What the access layer and \<open>write_store\<close> append to the log.\<close>

lemma frame_parts_append: "frame_parts (xs @ ys) = frame_parts xs @ frame_parts ys"
  by (induction xs rule: frame_parts.induct) auto

lemma nvm_write_log:
  assumes "nvm_write tab st idx part off bs = Inr st'"
  shows "wlog st' = wlog st @ [EvWrite idx part off bs]"
  using assms
  by (auto simp: nvm_write_def nvm_devWrite_def split: sum.splits if_splits)

lemma nvm_erase_log:
  assumes "nvm_erase tab st idx part off sz = Inr st'"
  shows "wlog st' = wlog st @ [EvErase idx part off sz]"
  using assms
  by (auto simp: nvm_erase_def nvm_devErase_def split: sum.splits if_splits)

lemma erase_words_frames:
  assumes "erase_words tab st d p psize i = Some (r, st')"
  shows "frame_parts (wlog st') = frame_parts (wlog st)"
proof -
  have "frame_parts (wlog (snd (r, st'))) = frame_parts (wlog st)"
  proof (rule erase_words.raw_induct [where P = "\<lambda>t s dd pp ps ii res.
           frame_parts (wlog (snd res)) = frame_parts (wlog s)", OF _ assms], goal_cases)
    case (1 loop t s dd pp ps ii res)
    show ?case
    proof (cases "ii < (ps + U32 - 4) mod U32")
      case False
      with 1(2) show ?thesis by auto
    next
      case True
      show ?thesis
      proof (cases "nvm_write t s (u32_of_int dd) (u32_of_int pp) ii [0xFF, 0xFF, 0xFF, 0xFF]")
        case (Inl e)
        with True 1(2) show ?thesis by auto
      next
        case (Inr s1)
        with True 1(2) have "loop t s1 dd pp ps ((ii + 4) mod U32) = Some res" by simp
        from 1(1) [OF this] have "frame_parts (wlog (snd res)) = frame_parts (wlog s1)" .
        with nvm_write_log [OF Inr] show ?thesis
          by (simp add: frame_parts_append sizeof_store_def)
      qed
    qed
  qed
  then show ?thesis by simp
qed

lemma erase_bytes_frames:
  assumes "erase_bytes tab st d p psize i = Some (r, st')"
  shows "frame_parts (wlog st') = frame_parts (wlog st)"
proof -
  have "frame_parts (wlog (snd (r, st'))) = frame_parts (wlog st)"
  proof (rule erase_bytes.raw_induct [where P = "\<lambda>t s dd pp ps ii res.
           frame_parts (wlog (snd res)) = frame_parts (wlog s)", OF _ assms], goal_cases)
    case (1 loop t s dd pp ps ii res)
    show ?case
    proof (cases "ii < ps")
      case False
      with 1(2) show ?thesis by auto
    next
      case True
      show ?thesis
      proof (cases "nvm_write t s (u32_of_int dd) (u32_of_int pp) ii [0xFF]")
        case (Inl e)
        with True 1(2) show ?thesis by auto
      next
        case (Inr s1)
        with True 1(2) have "loop t s1 dd pp ps ((ii + 1) mod U32) = Some res" by simp
        from 1(1) [OF this] have "frame_parts (wlog (snd res)) = frame_parts (wlog s1)" .
        with nvm_write_log [OF Inr] show ?thesis
          by (simp add: frame_parts_append sizeof_store_def)
      qed
    qed
  qed
  then show ?thesis by simp
qed

lemma erase_partition_frames:
  assumes "erase_partition tab st d p psize = Some (r, st')"
  shows "frame_parts (wlog st') = frame_parts (wlog st)"
proof (cases "nvm_erase tab st (u32_of_int d) (u32_of_int p) 0 psize")
  case (Inr s1)
  with assms have "st' = s1" by (simp add: erase_partition_def)
  with nvm_erase_log [OF Inr] show ?thesis by (simp add: frame_parts_append)
next
  case (Inl e)
  note er = Inl
  show ?thesis
  proof (cases "e = ENOTSUP")
    case False
    with er assms show ?thesis by (simp add: erase_partition_def)
  next
    case True
    show ?thesis
    proof (cases "erase_words tab st d p psize 0")
      case None
      with er True assms show ?thesis by (simp add: erase_partition_def)
    next
      case (Some a)
      note ew = Some
      obtain r1 s1 where a: "a = (r1, s1)" by (cases a) auto
      from erase_words_frames ew a have w: "frame_parts (wlog s1) = frame_parts (wlog st)" by blast
      show ?thesis
      proof (cases r1)
        case (Inl e2)
        with er True ew a assms w show ?thesis by (simp add: erase_partition_def)
      next
        case (Inr i)
        note r1 = Inr
        show ?thesis
        proof (cases "erase_bytes tab s1 d p psize i")
          case None
          with r1 er True ew a assms show ?thesis by (simp add: erase_partition_def)
        next
          case (Some b)
          obtain r2 s2 where b: "b = (r2, s2)" by (cases b) auto
          from erase_bytes_frames Some b have "frame_parts (wlog s2) = frame_parts (wlog s1)" by blast
          moreover from r1 er True ew a Some b assms
          have "st' = s2" by (auto simp: erase_partition_def split: sum.splits)
          ultimately show ?thesis using w by simp
        qed
      qed
    qed
  qed
qed

lemma store_bytes_length: "length (store_bytes f) = 10 + length (settings f)"
  by (simp add: store_bytes_def le32_bytes_def le16_bytes_def)

lemma write_store_frames:
  assumes "write_store tab st d p f off er = Some (Inr (), off', st')"
    and "length (settings f) = sizeof_settings"
  shows "frame_parts (wlog st') = frame_parts (wlog st) @ [u32_of_int p]"
proof -
  from assms(1) obtain pInfo where g: "nvm_getPart tab (u32_of_int d) (u32_of_int p) = Inr pInfo"
    by (auto simp: write_store_def split: sum.splits)
  from assms(1) g obtain off1 st1 where
    e: "(if er \<or> (off + sizeof_store) mod U32 > part_size pInfo
         then (case erase_partition tab st d p (part_size pInfo) of
                 None \<Rightarrow> None
               | Some (Inl e, st1) \<Rightarrow> Some (Inl e, off, st1)
               | Some (Inr u, st1) \<Rightarrow> Some (Inr (), 0, st1))
         else Some (Inr (), off, st)) = Some (Inr (), off1, st1)"
    and w: "nvm_write tab st1 (u32_of_int d) (u32_of_int p) off1 (store_bytes f) = Inr st'"
    by (auto simp: write_store_def split: sum.splits option.splits prod.splits)
  from e have "frame_parts (wlog st1) = frame_parts (wlog st)"
    by (auto split: if_splits option.splits sum.splits prod.splits dest: erase_partition_frames)
  with nvm_write_log [OF w] assms(2) show ?thesis
    by (simp add: frame_parts_append store_bytes_length sizeof_store_def sizeof_settings_def)
qed


lemma odd_counter_plus:
  fixes c :: "16 word"
  shows "odd (unat (c + of_nat k)) = odd (unat c + k)"
proof -
  have "unat (c + of_nat k) = (unat c + k) mod 65536"
    by (simp add: unat_word_ariths unat_of_nat mod_simps)
  moreover have "even ((unat c + k) mod 65536) = even (unat c + k)"
    by (rule dvd_mod_iff) simp
  ultimately show ?thesis by simp
qed

lemma save_step:
  assumes ok: "settings_storage_save crc_ccitt tab st s p = Some (Inr (), s', st')"
    and wr: "settings (latest_store s) \<noteq> p \<or> write_needed s"
    and len: "length p = sizeof_settings"
  shows "frame_parts (wlog st') = frame_parts (wlog st)
           @ [if odd (unat (counter (latest_store s)) + 1) then u32_of_int (part_B s)
              else u32_of_int (part_A s)]"
    and "counter (latest_store s') = counter (latest_store s) + 1"
    and "settings (latest_store s') = p" and "\<not> write_needed s'"
    and "part_A s' = part_A s" and "part_B s' = part_B s"
proof -
  define f where "f = update_settings_store crc_ccitt p (latest_store s)"
  have fc: "counter f = counter (latest_store s) + 1" and fs: "settings f = p"
    by (simp_all add: f_def update_settings_store_def Let_def)
  have par: "(unat (counter f) mod 2 \<noteq> 0) = odd (unat (counter (latest_store s)) + 1)"
    using odd_counter_plus [of "counter (latest_store s)" 1]
    by (simp add: fc odd_iff_mod_2_eq_one)
  show "frame_parts (wlog st') = frame_parts (wlog st)
           @ [if odd (unat (counter (latest_store s)) + 1) then u32_of_int (part_B s)
              else u32_of_int (part_A s)]"
  proof (cases "odd (unat (counter (latest_store s)) + 1)")
    case True
    with ok wr par obtain off where
      "write_store tab st (dev s) (part_B s) f (part_B_offset s) (part_B_status s = - 1)
         = Some (Inr (), off, st')"
      by (auto simp: settings_storage_save_def f_def [symmetric] Let_def
          split: option.splits sum.splits prod.splits if_splits)
    from write_store_frames [OF this] fs len True show ?thesis by simp
  next
    case False
    with ok wr par obtain off where
      "write_store tab st (dev s) (part_A s) f (part_A_offset s) (part_A_status s = - 1)
         = Some (Inr (), off, st')"
      by (auto simp: settings_storage_save_def f_def [symmetric] Let_def
          split: option.splits sum.splits prod.splits if_splits)
    from write_store_frames [OF this] fs len False show ?thesis by simp
  qed
  from ok wr show "counter (latest_store s') = counter (latest_store s) + 1"
    by (auto simp: settings_storage_save_def update_settings_store_def Let_def
        split: option.splits sum.splits prod.splits if_splits)
  from ok wr show "settings (latest_store s') = p"
    by (auto simp: settings_storage_save_def update_settings_store_def Let_def
        split: option.splits sum.splits prod.splits if_splits)
  from ok wr show "\<not> write_needed s'"
    by (auto simp: settings_storage_save_def update_settings_store_def Let_def
        split: option.splits sum.splits prod.splits if_splits)
  from ok wr show "part_A s' = part_A s"
    by (auto simp: settings_storage_save_def update_settings_store_def Let_def
        split: option.splits sum.splits prod.splits if_splits)
  from ok wr show "part_B s' = part_B s"
    by (auto simp: settings_storage_save_def update_settings_store_def Let_def
        split: option.splits sum.splits prod.splits if_splits)
qed


text \<open>
  C7. Every save that writes a frame writes it to partition B when the counter it has
  just incremented is odd and to partition A when it is even. Across a run of successful
  saves in which each payload differs from the one before (and the first differs from
  the cached payload, or \<open>write_needed\<close> is set), the \<open>k\<close>-th save carries the
  counter \<open>c + k\<close>, so the frame writes go to B and A in turn: the parity of
  \<open>unat c + k\<close> is the parity of the 16-bit counter \<open>c + k\<close>, also across its wrap.
\<close>

theorem saves_alternate:
  assumes "save_all crc_ccitt tab st s ps = Some (Inr (), s', st')"
    and "distinct_adj ps"
    and "write_needed s \<or> ps = [] \<or> hd ps \<noteq> settings (latest_store s)"
    and "\<forall>p \<in> set ps. length p = sizeof_settings"
  shows "frame_parts (wlog st') = frame_parts (wlog st)
           @ map (\<lambda>k. if odd (unat (counter (latest_store s)) + k) then u32_of_int (part_B s)
                        else u32_of_int (part_A s)) [1..<Suc (length ps)]
         \<and> counter (latest_store s') = counter (latest_store s) + of_nat (length ps)"
  using assms
proof (induction ps arbitrary: st s)
  case Nil
  then show ?case by simp
next
  case (Cons p ps)
  from Cons.prems(1) obtain s1 st1 where
    ok: "settings_storage_save crc_ccitt tab st s p = Some (Inr (), s1, st1)"
    and rest: "save_all crc_ccitt tab st1 s1 ps = Some (Inr (), s', st')"
    by (auto split: option.splits sum.splits prod.splits)
  from Cons.prems(3) have wr: "settings (latest_store s) \<noteq> p \<or> write_needed s" by auto
  from Cons.prems(4) have len: "length p = sizeof_settings" by simp
  note step = save_step [OF ok wr len]
  have "frame_parts (wlog st') = frame_parts (wlog st1)
           @ map (\<lambda>k. if odd (unat (counter (latest_store s1)) + k) then u32_of_int (part_B s1)
                        else u32_of_int (part_A s1)) [1..<Suc (length ps)]
         \<and> counter (latest_store s') = counter (latest_store s1) + of_nat (length ps)"
  proof (rule Cons.IH [OF rest])
    from Cons.prems(2) show "distinct_adj ps" by (cases ps) simp_all
    from Cons.prems(2) step(3) show "write_needed s1 \<or> ps = [] \<or> hd ps \<noteq> settings (latest_store s1)"
      by (cases ps) auto
    from Cons.prems(4) show "\<forall>p \<in> set ps. length p = sizeof_settings" by simp
  qed
  moreover have "odd (unat (counter (latest_store s1)) + k) = odd (unat (counter (latest_store s)) + Suc k)" for k
    using odd_counter_plus [of "counter (latest_store s)" 1] by (auto simp: step(2))
  moreover have "[1..<Suc (Suc (length ps))] = 1 # map Suc [1..<Suc (length ps)]"
    by (simp add: map_Suc_upt upt_conv_Cons del: upt_Suc)
  ultimately show ?case
    using step by (simp add: comp_def del: upt_Suc)
qed


lemma fresh_storage_fields:
  "dev fresh_storage = 0" "part_A fresh_storage = 1" "part_B fresh_storage = 2"
  "\<not> initialized fresh_storage" "\<not> write_needed fresh_storage"
  "counter (latest_store fresh_storage) = 0"
  "settings (latest_store fresh_storage) = default_settings"
  by (simp_all add: fresh_storage_def settings_storage_init_def zero_storage_def
      default_settings_store_def Let_def)

theorem saves_alternate_witness:
  "\<exists>s' st'. save_all crc16_ccitt (ab_table 128) erased fresh_storage [payload 1, payload 2, payload 3]
        = Some (Inr (), s', st')
      \<and> frame_parts (wlog st') = [2, 1, 2]"
proof -
  have "case save_all crc16_ccitt (ab_table 128) erased fresh_storage [payload 1, payload 2, payload 3] of
          None \<Rightarrow> False | Some (Inl e, s', st') \<Rightarrow> False | Some (Inr u, s', st') \<Rightarrow> True"
    by (simp add: nvm_defs settings_defs demo_defs Let_def cong: let_weak_cong)
  then obtain s' st' where
    e: "save_all crc16_ccitt (ab_table 128) erased fresh_storage [payload 1, payload 2, payload 3]
        = Some (Inr (), s', st')"
    using ok_resultD by blast
  have h: "distinct_adj [payload 1, payload 2, payload 3]"
    "write_needed fresh_storage \<or> [payload 1, payload 2, payload 3] = []
       \<or> hd [payload 1, payload 2, payload 3] \<noteq> settings (latest_store fresh_storage)"
    "\<forall>p \<in> set [payload 1, payload 2, payload 3]. length p = sizeof_settings"
    by (simp_all add: payload_def fresh_storage_fields default_settings_def sizeof_settings_def)
  have "[1..<4] = [1, 2, 3]" by (simp add: upt_rec)
  with saves_alternate [OF e h]
  have "frame_parts (wlog st') = [2, 1, 2]"
    by (simp add: fresh_storage_fields erased_def u32_of_int_def)
  with e show ?thesis by blast
qed

lemma save_ok_fields:
  assumes "settings_storage_save crc_ccitt tab st s p = Some (Inr (), s', st')"
  shows "\<not> write_needed s'" and "settings (latest_store s') = p"
  using assms
  by (auto simp: settings_storage_save_def update_settings_store_def Let_def
      split: if_splits option.splits sum.splits prod.splits)

text \<open>
  C6, as amended. If \<open>settings_storage_save\<close> succeeds on a handle whose
  \<open>write_needed\<close> is false and is called again with the same payload, the second call
  returns 0 and changes neither the NVM (no write, no erase) nor the handle (the counter
  stays). The pair writes one frame when the payload differed from the cached one before
  the first call, and none when it was equal.
\<close>

theorem save_twice:
  assumes ok: "settings_storage_save crc_ccitt tab st s p = Some (Inr (), s1, st1)"
    and nw: "\<not> write_needed s" and len: "length p = sizeof_settings"
  shows "settings_storage_save crc_ccitt tab st1 s1 p = Some (Inr (), s1, st1)
         \<and> frame_parts (wlog st1) = frame_parts (wlog st)
             @ (if settings (latest_store s) = p then []
                else [if odd (unat (counter (latest_store s)) + 1) then u32_of_int (part_B s)
                      else u32_of_int (part_A s)])"
proof
  from save_ok_fields [OF ok] have "s1\<lparr>write_needed := False\<rparr> = s1" by simp
  with save_ok_fields [OF ok]
  show "settings_storage_save crc_ccitt tab st1 s1 p = Some (Inr (), s1, st1)"
    by (simp add: settings_storage_save_def)
  show "frame_parts (wlog st1) = frame_parts (wlog st)
             @ (if settings (latest_store s) = p then []
                else [if odd (unat (counter (latest_store s)) + 1) then u32_of_int (part_B s)
                      else u32_of_int (part_A s)])"
  proof (cases "settings (latest_store s) = p")
    case True
    with ok nw have "st1 = st" by (simp add: settings_storage_save_def)
    with True show ?thesis by simp
  next
    case False
    with save_step(1) [OF ok _ len] show ?thesis by simp
  qed
qed

theorem save_twice_witness:
  "\<exists>s1 st1. settings_storage_save crc16_ccitt (ab_table 128) erased fresh_storage (payload 1)
        = Some (Inr (), s1, st1)
      \<and> settings_storage_save crc16_ccitt (ab_table 128) st1 s1 (payload 1) = Some (Inr (), s1, st1)
      \<and> frame_parts (wlog st1) = [2]"
proof -
  have "case settings_storage_save crc16_ccitt (ab_table 128) erased fresh_storage (payload 1) of
          None \<Rightarrow> False | Some (Inl e, s', st') \<Rightarrow> False | Some (Inr u, s', st') \<Rightarrow> True"
    by (simp add: nvm_defs settings_defs demo_defs Let_def cong: let_weak_cong)
  then obtain s1 st1 where
    e: "settings_storage_save crc16_ccitt (ab_table 128) erased fresh_storage (payload 1)
        = Some (Inr (), s1, st1)"
    using ok_resultD by blast
  have h: "\<not> write_needed fresh_storage" "length (payload 1) = sizeof_settings"
    by (simp_all add: fresh_storage_fields payload_def sizeof_settings_def)
  from save_twice [OF e h]
  have "settings_storage_save crc16_ccitt (ab_table 128) st1 s1 (payload 1) = Some (Inr (), s1, st1)
        \<and> frame_parts (wlog st1) = [2]"
    by (simp add: fresh_storage_fields erased_def u32_of_int_def payload_def default_settings_def)
  with e show ?thesis by blast
qed

text \<open>
  C6 as stated fails: on a handle whose cached payload already equals the payload saved
  (here the defaults, right after init), the pair of saves writes no frame at all, not
  exactly one.
\<close>

theorem save_twice_defaults_no_write:
  "write_needed fresh_storage = False
   \<and> (case save_all crc16_ccitt (ab_table 128) erased fresh_storage [default_settings, default_settings] of
         None \<Rightarrow> None | Some (r, s', st') \<Rightarrow> Some (r, frame_parts (wlog st'))) = Some (Inr (), [])"
  by (simp add: nvm_defs settings_defs demo_defs Let_def cong: let_weak_cong)


section \<open>Round trip on an empty store\<close>

text \<open>
  Reads and writes inside a partition that lies below \<open>2 ^ 32\<close> in the device's
  address space, and what the scan returns on an erased partition and on a partition
  that holds one valid frame followed by erased space.
\<close>

lemma nvm_read_flat:
  assumes g: "nvm_getPart tab idx part = Inr np"
    and fit: "baseAddr (tab ! idx) + part_offset np + part_size np < U32"
    and le: "off + n \<le> part_size np"
  shows "nvm_read tab st idx part off n =
           Inr (map (flash st (dev_id (area_dev (tab ! idx))))
                  [baseAddr (tab ! idx) + part_offset np + off
                     ..< baseAddr (tab ! idx) + part_offset np + off + n])"
proof -
  from fit le have 1: "(off + n) mod U32 = off + n" by simp
  from fit le have 2: "(off + part_offset np) mod U32 = off + part_offset np" by simp
  from fit le have 3: "(baseAddr (tab ! idx) + (off + part_offset np)) mod U32
      = baseAddr (tab ! idx) + part_offset np + off" by (simp add: add.commute add.left_commute)
  from le show ?thesis
    by (simp add: nvm_read_def g 1 2 3 nvm_devRead_def)
qed

lemma parse_partition_empty:
  assumes rd: "nvm_read tab st (u32_of_int d) (u32_of_int p) 0 6 = Inr buf"
    and ff: "le32 (take 4 buf) = 0xFFFFFFFF"
    and limit: "0 < limit"
  shows "parse_partition tab st d p limit m0 = Some (Inl ENOENT)"
proof -
  have "parse_loop tab st d p limit 0 0 m0 = Some (Inr (0, 0, 0xFFFFFFFF))"
    using rd ff limit by (subst parse_loop.simps) (simp add: SETTINGS_MAGIC_def)
  then show ?thesis by (simp add: parse_partition_def)
qed

lemma parse_partition_one_frame:
  assumes rd0: "nvm_read tab st (u32_of_int d) (u32_of_int p) 0 6 = Inr buf0"
    and magic: "le32 (take 4 buf0) = SETTINGS_MAGIC"
    and len: "unat (le16 (drop 4 buf0)) = sizeof_store"
    and rd1: "nvm_read tab st (u32_of_int d) (u32_of_int p) sizeof_store 6 = Inr buf1"
    and ff: "le32 (take 4 buf1) = 0xFFFFFFFF"
    and limit: "sizeof_store < limit"
  shows "parse_partition tab st d p limit m0 = Some (Inr 0)"
proof -
  have "parse_loop tab st d p limit sizeof_store 0 SETTINGS_MAGIC
          = Some (Inr (sizeof_store, 0, 0xFFFFFFFF))"
    using rd1 ff limit by (subst parse_loop.simps) (simp add: SETTINGS_MAGIC_def)
  moreover have "parse_loop tab st d p limit 0 0 m0
          = parse_loop tab st d p limit sizeof_store 0 SETTINGS_MAGIC"
    using rd0 magic len limit
    by (subst parse_loop.simps) (simp add: U32_def sizeof_store_def)
  ultimately show ?thesis by (simp add: parse_partition_def sizeof_store_def)
qed

lemma read_store_full:
  assumes "nvm_read tab st (u32_of_int d) (u32_of_int p) off 8 = Inr hdr"
    and "unat (le16 (drop 4 hdr)) = sizeof_store"
    and "nvm_read tab st (u32_of_int d) (u32_of_int p) ((off + 8) mod U32) (sizeof_store - 8) = Inr bs"
  shows "read_store tab st d p off store =
           Inr (store\<lparr>MAGIC := le32 (take 4 hdr), slength := le16 (drop 4 hdr),
                       counter := le16 (drop 6 hdr), settings := take sizeof_settings bs,
                       crc := le16 (drop sizeof_settings bs)\<rparr>)"
  using assms by (simp add: read_store_def Let_def)

lemma find_latest_empty:
  assumes g: "nvm_getPart tab (u32_of_int d) (u32_of_int p) = Inr np"
    and rd: "nvm_read tab st (u32_of_int d) (u32_of_int p) 0 6 = Inr buf"
    and ff: "le32 (take 4 buf) = 0xFFFFFFFF"
    and sz: "0 < part_size np"
  shows "find_latest_valid_store crc_ccitt tab st d p store = Some (Inr (1, store, 0))"
  using g sz parse_partition_empty [OF rd ff]
  by (simp add: find_latest_valid_store_def find_loop.simps)

lemma find_latest_one_frame:
  assumes g: "nvm_getPart tab (u32_of_int d) (u32_of_int p) = Inr np"
    and pp: "parse_partition tab st d p (part_size np) 0 = Some (Inr 0)"
    and rs: "read_store tab st d p 0 store = Inr f"
    and ok: "check_store_integrity crc_ccitt f = 1"
    and sz: "0 < part_size np"
  shows "find_latest_valid_store crc_ccitt tab st d p store
           = Some (Inr (3, f, unat (slength f)))"
proof -
  have "unat (slength f) < 65536"
    using unsigned_less [of "slength f"] by simp
  then have "unat (slength f) < U32" by (simp add: U32_def)
  then show ?thesis
    using g sz pp rs ok
    by (simp add: find_latest_valid_store_def find_loop.simps [of _ _ _ _ _ "part_size np"] Let_def)
qed


lemma le_bytes_length [simp]: "length (le32_bytes w) = 4" "length (le16_bytes v) = 2"
  by (simp_all add: le32_bytes_def le16_bytes_def)

lemma le32_prefix: "length a = 4 \<Longrightarrow> le32 (a @ xs) = le32 a"
  by (simp add: le32_def nth_append)

lemma le16_prefix: "length a = 2 \<Longrightarrow> le16 (a @ xs) = le16 a"
  by (simp add: le16_def nth_append)

lemma store_header:
  "le32 (take 4 (take 6 (store_bytes f))) = MAGIC f"
  "le16 (drop 4 (take 6 (store_bytes f))) = slength f"
  "le32 (take 4 (take 8 (store_bytes f))) = MAGIC f"
  "le16 (drop 4 (take 8 (store_bytes f))) = slength f"
  "le16 (drop 6 (take 8 (store_bytes f))) = counter f"
  by (simp_all add: store_bytes_def le32_roundtrip le16_roundtrip le16_prefix)

lemma store_body:
  assumes "length (settings f) = sizeof_settings"
  shows "take sizeof_settings (take (sizeof_store - 8) (drop 8 (store_bytes f))) = settings f"
    and "le16 (drop sizeof_settings (take (sizeof_store - 8) (drop 8 (store_bytes f)))) = crc f"
    and "take (sizeof_store - 2) (store_bytes (f\<lparr>crc := c\<rparr>)) = take (sizeof_store - 2) (store_bytes f)"
  using assms
  by (simp_all add: store_bytes_def sizeof_settings_def sizeof_store_def le16_roundtrip)

lemma read_frame:
  assumes "\<forall>i<length bs. F (a + i) = bs ! i" and "off + n \<le> length bs"
  shows "map F [a + off..<a + off + n] = take n (drop off bs)"
  using assms by (auto intro!: nth_equalityI simp: add.assoc)

lemma le32_read:
  assumes "4 \<le> n"
  shows "le32 (take 4 (map F [a..<a + n])) =
           of_nat (unat (F a) + 256 * unat (F (a + 1)) + 65536 * unat (F (a + 2))
                     + 16777216 * unat (F (a + 3)))"
  using assms by (simp add: le32_def)

lemma byte_and_ff: "(0xFF :: byte) AND b = b"
proof -
  have e: "(0xFF :: byte) = - 1" by simp
  show ?thesis unfolding e by simp
qed


lemma nvm_write_flat:
  assumes g: "nvm_getPart tab idx part = Inr np"
    and fit: "baseAddr (tab ! idx) + part_offset np + part_size np < U32"
    and le: "off + length bs \<le> part_size np"
    and hw: "has_write (area_dev (tab ! idx))"
    and al: "(baseAddr (tab ! idx) + part_offset np + off) mod write_size (area_dev (tab ! idx)) = 0"
    and gr: "length bs mod write_size (area_dev (tab ! idx)) = 0"
  shows "\<exists>st'. nvm_write tab st idx part off bs = Inr st' \<and>
           (\<forall>x. flash st' (dev_id (area_dev (tab ! idx))) x =
              (if baseAddr (tab ! idx) + part_offset np + off \<le> x
                   \<and> x < baseAddr (tab ! idx) + part_offset np + off + length bs
               then (if bit_clear (area_dev (tab ! idx))
                     then flash st (dev_id (area_dev (tab ! idx))) x
                            AND bs ! (x - (baseAddr (tab ! idx) + part_offset np + off))
                     else bs ! (x - (baseAddr (tab ! idx) + part_offset np + off)))
               else flash st (dev_id (area_dev (tab ! idx))) x))"
proof -
  from fit le have 1: "(off + length bs) mod U32 = off + length bs" by simp
  from fit le have 2: "(off + part_offset np) mod U32 = off + part_offset np" by simp
  from fit le have 3: "(baseAddr (tab ! idx) + (off + part_offset np)) mod U32
      = baseAddr (tab ! idx) + part_offset np + off" by (simp add: add.commute add.left_commute)
  from le hw al gr show ?thesis
    by (simp add: nvm_write_def g 1 2 3 nvm_devWrite_def clear_range_def store_range_def)
qed

lemma scan_results_load:
  assumes "\<not> initialized s"
    and "find_latest_valid_store crc_ccitt tab st (dev s) (part_A s) zero_store = Some (Inr (1, sA, oA))"
    and "find_latest_valid_store crc_ccitt tab st (dev s) (part_B s) zero_store = Some (Inr (rB, sB, oB))"
    and "rB = 1 \<and> p = default_settings \<or> rB = 3 \<and> p = settings sB"
  shows "\<exists>s'. settings_storage_load crc_ccitt tab st s buf = Some (Inr buf, s')
           \<and> settings (latest_store s') = p \<and> initialized s'"
  using assms
  by (auto simp: settings_storage_load_def scan_A_def scan_B_def load_select_def Let_def
      default_settings_store_def)


lemma erased_partition_scan:
  assumes g: "nvm_getPart tab (u32_of_int d) (u32_of_int p) = Inr np"
    and fit: "baseAddr (tab ! u32_of_int d) + part_offset np + part_size np < U32"
    and sz: "6 \<le> part_size np"
    and er: "\<forall>x. baseAddr (tab ! u32_of_int d) + part_offset np \<le> x
               \<and> x < baseAddr (tab ! u32_of_int d) + part_offset np + 6
             \<longrightarrow> flash st (dev_id (area_dev (tab ! u32_of_int d))) x = 0xFF"
  shows "find_latest_valid_store crc_ccitt tab st d p store = Some (Inr (1, store, 0))"
proof -
  let ?F = "flash st (dev_id (area_dev (tab ! u32_of_int d)))"
  let ?a = "baseAddr (tab ! u32_of_int d) + part_offset np"
  have rd: "nvm_read tab st (u32_of_int d) (u32_of_int p) 0 6 = Inr (map ?F [?a..<?a + 6])"
    using nvm_read_flat [OF g fit, of 0 6 st] sz by simp
  have "?F ?a = 0xFF" "?F (?a + 1) = 0xFF" "?F (?a + 2) = 0xFF" "?F (?a + 3) = 0xFF"
    using er by simp_all
  then have ff: "le32 (take 4 (map ?F [?a..<?a + 6])) = 0xFFFFFFFF"
    by (simp add: le32_read)
  from sz have "0 < part_size np" by simp
  from find_latest_empty [OF g rd ff this] show ?thesis .
qed

lemma single_frame_scan:
  assumes g: "nvm_getPart tab (u32_of_int d) (u32_of_int p) = Inr np"
    and fit: "baseAddr (tab ! u32_of_int d) + part_offset np + part_size np < U32"
    and sz: "sizeof_store + 6 \<le> part_size np"
    and fr: "\<forall>i. i < sizeof_store \<longrightarrow> flash st (dev_id (area_dev (tab ! u32_of_int d)))
               (baseAddr (tab ! u32_of_int d) + part_offset np + i) = store_bytes f ! i"
    and er: "\<forall>x. baseAddr (tab ! u32_of_int d) + part_offset np + sizeof_store \<le> x
               \<and> x < baseAddr (tab ! u32_of_int d) + part_offset np + sizeof_store + 6
             \<longrightarrow> flash st (dev_id (area_dev (tab ! u32_of_int d))) x = 0xFF"
    and len: "length (settings f) = sizeof_settings"
    and magic: "MAGIC f = SETTINGS_MAGIC"
    and sl: "slength f = of_nat sizeof_store"
    and ok: "check_store_integrity crc_ccitt f = 1"
  shows "find_latest_valid_store crc_ccitt tab st d p zero_store = Some (Inr (3, f, sizeof_store))"
proof -
  let ?F = "flash st (dev_id (area_dev (tab ! u32_of_int d)))"
  let ?a = "baseAddr (tab ! u32_of_int d) + part_offset np"
  have bl: "length (store_bytes f) = sizeof_store"
    using len by (simp add: store_bytes_def sizeof_store_def sizeof_settings_def)
  have fr': "\<forall>i<length (store_bytes f). ?F (?a + i) = store_bytes f ! i"
    using fr bl by simp
  have usl: "unat (slength f) = sizeof_store"
    by (simp add: sl sizeof_store_def)
  have rd0: "nvm_read tab st (u32_of_int d) (u32_of_int p) 0 6 = Inr (take 6 (store_bytes f))"
    using nvm_read_flat [OF g fit, of 0 6 st] read_frame [OF fr', of 0 6] sz bl
    by (simp add: sizeof_store_def)
  have rd8: "nvm_read tab st (u32_of_int d) (u32_of_int p) 0 8 = Inr (take 8 (store_bytes f))"
    using nvm_read_flat [OF g fit, of 0 8 st] read_frame [OF fr', of 0 8] sz bl
    by (simp add: sizeof_store_def)
  have rdb: "nvm_read tab st (u32_of_int d) (u32_of_int p) ((0 + 8) mod U32) (sizeof_store - 8)
               = Inr (take (sizeof_store - 8) (drop 8 (store_bytes f)))"
    using nvm_read_flat [OF g fit, of 8 33 st] read_frame [OF fr', of 8 33] sz bl
    by (simp add: sizeof_store_def U32_def)
  have rd1: "nvm_read tab st (u32_of_int d) (u32_of_int p) sizeof_store 6
               = Inr (map ?F [?a + sizeof_store..<?a + sizeof_store + 6])"
    using nvm_read_flat [OF g fit, of sizeof_store 6 st] sz by simp
  have "?F (?a + sizeof_store) = 0xFF" "?F (?a + sizeof_store + 1) = 0xFF"
       "?F (?a + sizeof_store + 2) = 0xFF" "?F (?a + sizeof_store + 3) = 0xFF"
    using er by simp_all
  then have ff: "le32 (take 4 (map ?F [?a + sizeof_store..<?a + sizeof_store + 6])) = 0xFFFFFFFF"
    by (simp add: le32_read)
  from sz have lim: "sizeof_store < part_size np" by simp
  have pp: "parse_partition tab st d p (part_size np) 0 = Some (Inr 0)"
    by (rule parse_partition_one_frame [OF rd0 _ _ rd1 ff lim])
       (simp_all only: store_header magic usl)
  have h8: "unat (le16 (drop 4 (take 8 (store_bytes f)))) = sizeof_store"
    by (simp only: store_header usl)
  have "read_store tab st d p 0 zero_store =
          Inr (zero_store\<lparr>MAGIC := MAGIC f, slength := slength f, counter := counter f,
                           settings := settings f, crc := crc f\<rparr>)"
    using read_store_full [OF rd8 h8 rdb, of zero_store]
    by (simp only: store_header store_body [OF len])
  then have rs: "read_store tab st d p 0 zero_store = Inr f"
    by (simp add: zero_store_def)
  from lim have "0 < part_size np" by simp
  from find_latest_one_frame [OF g pp rs ok this] usl show ?thesis by simp
qed

lemma updated_store_valid:
  assumes "length p = sizeof_settings" and "MAGIC g = SETTINGS_MAGIC"
  shows "check_store_integrity crc_ccitt (update_settings_store crc_ccitt p g) = 1"
proof -
  let ?s = "g\<lparr>counter := counter g + 1, slength := of_nat sizeof_store, settings := p\<rparr>"
  let ?c = "crc_ccitt (take (sizeof_store - 2) (store_bytes ?s))"
  have u: "update_settings_store crc_ccitt p g = ?s\<lparr>crc := ?c\<rparr>"
    by (simp add: update_settings_store_def Let_def)
  have "length (settings ?s) = sizeof_settings" using assms(1) by simp
  from store_body(3) [OF this, of ?c]
  have t: "take (sizeof_store - 2) (store_bytes (?s\<lparr>crc := ?c\<rparr>)) = take (sizeof_store - 2) (store_bytes ?s)" .
  have n: "(unat (of_nat sizeof_store :: 16 word) + U32 - 2) mod U32 = sizeof_store - 2"
    by (simp add: sizeof_store_def U32_def)
  show ?thesis
    unfolding u check_store_integrity_def
    using assms(2) by (simp add: n t) (simp add: sizeof_store_def)
qed


text \<open>
  For every payload of 31 bytes and a zero-initialised handle over two disjoint, fully
  erased partitions of at least 47 bytes each (a frame of 41 bytes and the 6 bytes of the
  header read after it), on a device that accepts the frame write, the sequence init;
  save; load returns 0 at each step. The load puts the payload saved into the handle's
  \<open>latest_store\<close> and leaves the caller's buffer as it was; a second load on the same
  handle copies the payload to the caller.
\<close>

lemma round_trip_handle:
  assumes gA: "nvm_getPart tab (u32_of_int d) (u32_of_int pA) = Inr PA"
    and gB: "nvm_getPart tab (u32_of_int d) (u32_of_int pB) = Inr PB"
    and szA: "sizeof_store + 6 \<le> part_size PA"
    and szB: "sizeof_store + 6 \<le> part_size PB"
    and fitA: "baseAddr (tab ! u32_of_int d) + part_offset PA + part_size PA < U32"
    and fitB: "baseAddr (tab ! u32_of_int d) + part_offset PB + part_size PB < U32"
    and disj: "part_offset PA + part_size PA \<le> part_offset PB
               \<or> part_offset PB + part_size PB \<le> part_offset PA"
    and erA: "\<forall>x. baseAddr (tab ! u32_of_int d) + part_offset PA \<le> x
                \<and> x < baseAddr (tab ! u32_of_int d) + part_offset PA + part_size PA
              \<longrightarrow> flash st (dev_id (area_dev (tab ! u32_of_int d))) x = 0xFF"
    and erB: "\<forall>x. baseAddr (tab ! u32_of_int d) + part_offset PB \<le> x
                \<and> x < baseAddr (tab ! u32_of_int d) + part_offset PB + part_size PB
              \<longrightarrow> flash st (dev_id (area_dev (tab ! u32_of_int d))) x = 0xFF"
    and hw: "has_write (area_dev (tab ! u32_of_int d))"
    and al: "(baseAddr (tab ! u32_of_int d) + part_offset PB) mod write_size (area_dev (tab ! u32_of_int d)) = 0"
    and gr: "sizeof_store mod write_size (area_dev (tab ! u32_of_int d)) = 0"
    and len: "length p = sizeof_settings"
  shows "\<exists>s1 s2 st2 s3.
           settings_storage_init crc_ccitt zero_storage d pA pB = (Inr (), s1)
         \<and> settings_storage_save crc_ccitt tab st s1 p = Some (Inr (), s2, st2)
         \<and> settings_storage_load crc_ccitt tab st2 s2 buf = Some (Inr buf, s3)
         \<and> settings (latest_store s3) = p
         \<and> settings_storage_load crc_ccitt tab st2 s3 buf = Some (Inr p, s3)"
proof -
  let ?F = "flash st (dev_id (area_dev (tab ! u32_of_int d)))"
  let ?aA = "baseAddr (tab ! u32_of_int d) + part_offset PA"
  let ?aB = "baseAddr (tab ! u32_of_int d) + part_offset PB"
  define s1 where "s1 = snd (settings_storage_init crc_ccitt zero_storage d pA pB)"
  have init: "settings_storage_init crc_ccitt zero_storage d pA pB = (Inr (), s1)"
    by (simp add: s1_def settings_storage_init_def)
  have s1f: "dev s1 = d" "part_A s1 = pA" "part_B s1 = pB" "\<not> initialized s1"
    "\<not> write_needed s1" "latest_store s1 = default_settings_store crc_ccitt"
    "part_B_offset s1 = 0" "part_B_status s1 = 0"
    by (simp_all add: s1_def settings_storage_init_def zero_storage_def)
  have dfl: "settings (default_settings_store crc_ccitt) = default_settings"
    "MAGIC (default_settings_store crc_ccitt) = SETTINGS_MAGIC"
    "counter (default_settings_store crc_ccitt) = 0"
    by (simp_all add: default_settings_store_def Let_def)
  have erA6: "\<forall>x. ?aA \<le> x \<and> x < ?aA + 6 \<longrightarrow> ?F x = 0xFF"
    using erA szA by auto
  have erB6: "\<forall>x. ?aB \<le> x \<and> x < ?aB + 6 \<longrightarrow> ?F x = 0xFF"
    using erB szB by auto
  from szA have szA6: "6 \<le> part_size PA" by simp
  from szB have szB6: "6 \<le> part_size PB" by simp
  show ?thesis
  proof (cases "p = default_settings")
    case True
    let ?s2 = "s1\<lparr>write_needed := False\<rparr>"
    have sv: "settings_storage_save crc_ccitt tab st s1 p = Some (Inr (), ?s2, st)"
      using True by (simp add: settings_storage_save_def s1f dfl)
    have a: "find_latest_valid_store crc_ccitt tab st (dev ?s2) (part_A ?s2) zero_store
               = Some (Inr (1, zero_store, 0))"
      using erased_partition_scan [OF gA fitA szA6 erA6] by (simp add: s1f)
    have b: "find_latest_valid_store crc_ccitt tab st (dev ?s2) (part_B ?s2) zero_store
               = Some (Inr (1, zero_store, 0))"
      using erased_partition_scan [OF gB fitB szB6 erB6] by (simp add: s1f)
    have "\<not> initialized ?s2" by (simp add: s1f)
    from scan_results_load [OF this a b, where p = p and buf = buf] True
    obtain s3 where l: "settings_storage_load crc_ccitt tab st ?s2 buf = Some (Inr buf, s3)"
      and c: "settings (latest_store s3) = p" and i: "initialized s3" by auto
    from later_load_copies [OF i, of crc_ccitt tab st buf] c
    have "settings_storage_load crc_ccitt tab st s3 buf = Some (Inr p, s3)" by simp
    with init sv l c show ?thesis by blast
  next
    case False
    define f where "f = update_settings_store crc_ccitt p (default_settings_store crc_ccitt)"
    have ff: "counter f = 1" "settings f = p" "MAGIC f = SETTINGS_MAGIC"
      "slength f = of_nat sizeof_store" "length (settings f) = sizeof_settings"
      using len by (simp_all add: f_def update_settings_store_def Let_def dfl)
    have bl: "length (store_bytes f) = sizeof_store"
      using ff(5) by (simp add: store_bytes_def sizeof_store_def sizeof_settings_def)
    have le0: "0 + length (store_bytes f) \<le> part_size PB" using szB bl by simp
    have al0: "(?aB + 0) mod write_size (area_dev (tab ! u32_of_int d)) = 0" using al by simp
    have gr0: "length (store_bytes f) mod write_size (area_dev (tab ! u32_of_int d)) = 0"
      using gr bl by simp
    from nvm_write_flat [OF gB fitB le0 hw al0 gr0, of st] obtain st2 where
      w: "nvm_write tab st (u32_of_int d) (u32_of_int pB) 0 (store_bytes f) = Inr st2"
      and fl0: "\<forall>x. flash st2 (dev_id (area_dev (tab ! u32_of_int d))) x =
              (if ?aB + 0 \<le> x \<and> x < ?aB + 0 + length (store_bytes f)
               then (if bit_clear (area_dev (tab ! u32_of_int d))
                     then ?F x AND store_bytes f ! (x - (?aB + 0))
                     else store_bytes f ! (x - (?aB + 0)))
               else ?F x)"
      by blast
    have fl: "flash st2 (dev_id (area_dev (tab ! u32_of_int d))) x =
              (if ?aB \<le> x \<and> x < ?aB + sizeof_store
               then (if bit_clear (area_dev (tab ! u32_of_int d))
                     then ?F x AND store_bytes f ! (x - ?aB)
                     else store_bytes f ! (x - ?aB))
               else ?F x)" for x
      using fl0 [rule_format, of x] by (simp only: bl add_0_right)
    have ws: "write_store tab st d pB f 0 False = Some (Inr (), sizeof_store, st2)"
      using szB w by (simp add: write_store_def gB U32_def sizeof_store_def)
    let ?s2 = "s1\<lparr>latest_store := f, write_needed := True, part_B_offset := sizeof_store,
                    part_B_status := 1, write_needed := False\<rparr>"
    have sv: "settings_storage_save crc_ccitt tab st s1 p = Some (Inr (), ?s2, st2)"
      using False ws by (simp add: settings_storage_save_def s1f dfl f_def [symmetric] ff)
    have "\<forall>x. ?aA \<le> x \<and> x < ?aA + 6 \<longrightarrow> flash st2 (dev_id (area_dev (tab ! u32_of_int d))) x = 0xFF"
      using erA6 disj szA szB by (auto simp: fl)
    from erased_partition_scan [OF gA fitA szA6 this]
    have a: "find_latest_valid_store crc_ccitt tab st2 (dev ?s2) (part_A ?s2) zero_store
               = Some (Inr (1, zero_store, 0))"
      by (simp add: s1f)
    have fr: "\<forall>i. i < sizeof_store \<longrightarrow> flash st2 (dev_id (area_dev (tab ! u32_of_int d))) (?aB + i)
                = store_bytes f ! i"
      using erB szB by (auto simp: fl byte_and_ff)
    have er: "\<forall>x. ?aB + sizeof_store \<le> x \<and> x < ?aB + sizeof_store + 6
                \<longrightarrow> flash st2 (dev_id (area_dev (tab ! u32_of_int d))) x = 0xFF"
      using erB szB by (auto simp: fl)
    have ok: "check_store_integrity crc_ccitt f = 1"
      unfolding f_def by (rule updated_store_valid [OF len dfl(2)])
    from single_frame_scan [OF gB fitB szB fr er ff(5) ff(3) ff(4) ok]
    have b: "find_latest_valid_store crc_ccitt tab st2 (dev ?s2) (part_B ?s2) zero_store
               = Some (Inr (3, f, sizeof_store))"
      by (simp add: s1f)
    have "\<not> initialized ?s2" by (simp add: s1f)
    from scan_results_load [OF this a b, where p = p and buf = buf] ff(2)
    obtain s3 where l: "settings_storage_load crc_ccitt tab st2 ?s2 buf = Some (Inr buf, s3)"
      and c: "settings (latest_store s3) = p" and i: "initialized s3" by auto
    from later_load_copies [OF i, of crc_ccitt tab st2 buf] c
    have "settings_storage_load crc_ccitt tab st2 s3 buf = Some (Inr p, s3)" by simp
    with init sv l c show ?thesis by blast
  qed
qed

text \<open>The hypotheses hold of two erased partitions of 128 bytes.\<close>

lemma round_trip_handle_example:
  "\<exists>s1 s2 st2 s3.
      settings_storage_init crc16_ccitt zero_storage 0 1 2 = (Inr (), s1)
    \<and> settings_storage_save crc16_ccitt (ab_table 128) erased s1 (payload 1) = Some (Inr (), s2, st2)
    \<and> settings_storage_load crc16_ccitt (ab_table 128) st2 s2 caller_buffer
        = Some (Inr caller_buffer, s3)
    \<and> settings (latest_store s3) = payload 1
    \<and> settings_storage_load crc16_ccitt (ab_table 128) st2 s3 caller_buffer
        = Some (Inr (payload 1), s3)"
proof (rule round_trip_handle [where PA = "\<lparr>part_offset = 0, part_size = 128\<rparr>"
                                 and PB = "\<lparr>part_offset = 128, part_size = 128\<rparr>"])
  show "nvm_getPart (ab_table 128) (u32_of_int 0) (u32_of_int 1) = Inr \<lparr>part_offset = 0, part_size = 128\<rparr>"
    by (simp add: nvm_defs ab_table_def)
  show "nvm_getPart (ab_table 128) (u32_of_int 0) (u32_of_int 2) = Inr \<lparr>part_offset = 128, part_size = 128\<rparr>"
    by (simp add: nvm_defs ab_table_def)
qed (simp_all add: nvm_defs demo_defs sizeof_store_def sizeof_settings_def)

text \<open>
  On partitions of exactly one frame (41 bytes) the handle does not get the payload
  either: the save fills partition B, the scan of the load then stops on the limit with
  the magic word in its buffer and reports B corrupt, and the load selects the defaults.
\<close>

lemma small_partition_load_defaults:
  "(case settings_storage_save crc16_ccitt (ab_table 41) erased fresh_storage (payload 1) of
      None \<Rightarrow> None
    | Some (r, s, st) \<Rightarrow>
        map_option (\<lambda>l. (r, fst l, settings (latest_store (snd l))))
          (settings_storage_load crc16_ccitt (ab_table 41) st s caller_buffer))
     = Some (Inr (), Inr caller_buffer, default_settings)
   \<and> payload 1 \<noteq> default_settings"
  by (simp add: nvm_defs settings_defs demo_defs Let_def cong: let_weak_cong)

text \<open>
  C2. The claim is that after init; save(S); load on two erased partitions every step
  returns 0 and the caller's buffer holds S. On two erased partitions of 128 bytes, with
  S = \<open>payload 1\<close> and a caller's buffer of 31 bytes \<open>0xEE\<close>, every step returns 0 and
  the handle's \<open>latest_store\<close> holds S, but the caller's buffer still holds the bytes
  \<open>0xEE\<close>: \<open>settings_storage_load\<close> copies to \<open>*settings\<close> only when the handle is
  already initialised, and after init; save it is not.
\<close>

theorem round_trip_leaves_buffer:
  "fst (settings_storage_init crc16_ccitt zero_storage 0 1 2) = Inr ()
   \<and> map_option fst round_trip_save = Some (Inr ())
   \<and> map_option (\<lambda>l. (fst l, settings (latest_store (snd l)))) round_trip_load
       = Some (Inr caller_buffer, payload 1)
   \<and> caller_buffer \<noteq> payload 1"
  by (simp add: round_trip_save_def round_trip_load_def nvm_defs settings_defs demo_defs Let_def
      cong: let_weak_cong)


end
